theory Spec2Isabelle
  imports Main "HOL-Library.Word"
begin

section \<open>HermesBundler.ts: strings and the property-file parser\<close>

text \<open>
  A JavaScript string is a sequence of UTF-16 code units. The model writes it as a
  \<^typ>\<open>string\<close> whose characters are the code units below 256; every operation used
  by \<open>parseGradleProperties\<close> (\<open>split\<close>, \<open>trim\<close>, \<open>startsWith\<close>, \<open>indexOf\<close>,
  \<open>substr\<close>) works code unit by code unit, so on that range the model computes what the
  source computes.
\<close>

subsection \<open>String.prototype.split, with a one-character separator\<close>

fun split_on :: "char \<Rightarrow> string \<Rightarrow> string list" where
  "split_on sep [] = [[]]"
| "split_on sep (c # cs) =
     (if c = sep then [] # split_on sep cs
      else (case split_on sep cs of
              [] \<Rightarrow> [[c]]
            | l # ls \<Rightarrow> (c # l) # ls))"

subsection \<open>String.prototype.trim\<close>

text \<open>
  \<open>trim\<close> removes white space and line terminators from both ends. Among the code
  units below 256 these are TAB, LF, VT, FF, CR, SPACE and NO-BREAK SPACE.
\<close>

definition is_js_space :: "char \<Rightarrow> bool" where
  "is_js_space c \<longleftrightarrow>
     (of_char c :: nat) \<in> {9, 10, 11, 12, 13, 32, 160}"

definition trim :: "string \<Rightarrow> string" where
  "trim s = rev (dropWhile is_js_space (rev (dropWhile is_js_space s)))"

subsection \<open>startsWith, indexOf, substr\<close>

fun startsWith :: "string \<Rightarrow> string \<Rightarrow> bool" where
  "startsWith s [] = True"
| "startsWith [] (p # ps) = False"
| "startsWith (c # cs) (p # ps) = (c = p \<and> startsWith cs ps)"

text \<open>\<open>indexOf\<close> with a one-character needle: the first position, or \<open>-1\<close>.\<close>

fun indexOf :: "string \<Rightarrow> char \<Rightarrow> int" where
  "indexOf [] x = -1"
| "indexOf (c # cs) x =
     (if c = x then 0
      else (let i = indexOf cs x in if i < 0 then -1 else i + 1))"

text \<open>
  \<open>substr(start, length)\<close> as the language standard defines it: a negative start
  counts from the end, the start is clamped to the string, and the length is clamped
  to what lies between \<open>0\<close> and the rest of the string. A missing length
  (\<open>None\<close>) takes the rest.
\<close>

definition substr :: "string \<Rightarrow> int \<Rightarrow> int option \<Rightarrow> string" where
  "substr s start len =
     (let size = int (length s);
          st = (if start < 0 then max (size + start) 0 else min start size);
          n = (case len of None \<Rightarrow> size - st
               | Some l \<Rightarrow> min (max l 0) (size - st))
      in take (nat n) (drop (nat st) s))"

subsection \<open>The result object\<close>

text \<open>
  The result starts as the object literal \<open>{}\<close>; the model keeps its own properties
  as a map. An assignment \<open>result[key] = value\<close> creates or overwrites the own
  property \<open>key\<close>, except for the key \<open>__proto__\<close>: the literal inherits the
  \<open>__proto__\<close> accessor, whose setter ignores a value that is not an object, and the
  values here are strings. Such an assignment stores nothing.
\<close>

type_synonym props = "string \<rightharpoonup> string"

definition set_prop :: "props \<Rightarrow> string \<Rightarrow> string \<Rightarrow> props" where
  "set_prop result key v =
     (if key = ''__proto__'' then result else result(key \<mapsto> v))"

subsection \<open>parseGradleProperties\<close>

text \<open>One pass of the loop body (source lines 99 to 107) on one line of the input.\<close>

definition parse_line :: "props \<Rightarrow> string \<Rightarrow> props" where
  "parse_line result line0 =
     (let line = trim line0 in
      if line = [] \<or> startsWith line ''#'' then result
      else (let sepIndex = indexOf line (CHR ''='');
                key = substr line 0 (Some sepIndex);
                v = substr line (sepIndex + 1) None
            in set_prop result key v))"

definition parseGradleProperties :: "string \<Rightarrow> props" where
  "parseGradleProperties content =
     foldl parse_line Map.empty (split_on (CHR 0x0A) content)"

subsection \<open>What the parser is compared with\<close>

text \<open>
  The lines that make an entry: the lines of the input, each trimmed, without
  those that are then empty or start with \<open>#\<close>.
\<close>

definition entry_line :: "string \<Rightarrow> bool" where
  "entry_line l \<longleftrightarrow> l \<noteq> [] \<and> \<not> startsWith l ''#''"

definition entry_lines :: "string \<Rightarrow> string list" where
  "entry_lines content = filter entry_line (map trim (split_on (CHR 0x0A) content))"

text \<open>A line split on its first \<open>=\<close>: what is before it, and everything after it.\<close>

definition split_first_eq :: "string \<Rightarrow> string \<times> string" where
  "split_first_eq l =
     (takeWhile (\<lambda>c. c \<noteq> CHR ''='') l, drop 1 (dropWhile (\<lambda>c. c \<noteq> CHR ''='') l))"

text \<open>
  What an entry line stores, as a pair of key and value: the two sides of its first
  \<open>=\<close>, or the empty key and the whole line when it has none.
\<close>

definition entry_of :: "string \<Rightarrow> string \<times> string" where
  "entry_of l = (if CHR ''='' \<in> set l then split_first_eq l else ([], l))"

text \<open>The lines that put something under the empty key.\<close>

definition empty_key_line :: "string \<Rightarrow> bool" where
  "empty_key_line l \<longleftrightarrow> CHR ''='' \<notin> set l \<or> startsWith l ''=''"

section \<open>Errors, buffers and the file system\<close>

type_synonym path = string
type_synonym byte = "8 word"
type_synonym buffer = "byte list"

text \<open>The file-system calls the source makes through \<open>fs-extra\<close>.\<close>

datatype fscall =
    EnsureDir path
  | WriteFile path
  | ReadFile path
  | Remove path
  | Open path
  | Read path
  | Close path

text \<open>How a spawned process ended, as \<open>spawnAsync\<close> sees it.\<close>

datatype outcome = NotSpawned | Exited nat | Killed

datatype error =
    Error string          \<comment> \<open>\<open>throw new Error(message)\<close>\<close>
  | SystemError fscall    \<comment> \<open>a file-system call that was rejected\<close>
  | SpawnError outcome    \<comment> \<open>the rejection of \<open>spawnAsync\<close>\<close>
  | SyntaxError           \<comment> \<open>\<open>JSON.parse\<close> on malformed text\<close>
  | RangeError            \<comment> \<open>a buffer access out of range\<close>
  | ComposeError          \<comment> \<open>an exception of the composition function\<close>

datatype node = Dir | File buffer

datatype event = FsCall fscall | SpawnCall path "string list"

text \<open>
  The state: what exists at each path, and the calls made so far, oldest first.
\<close>

record fs =
  nodes :: "path \<rightharpoonup> node"
  calls :: "event list"

text \<open>
  Everything the source takes from its host: the operating system (\<open>os.tmpdir()\<close>,
  \<open>process.pid\<close>, \<open>os.platform()\<close>), which file-system calls the system rejects
  (\<open>deny\<close>: permissions, a full disk, a busy directory), module resolution in the
  project (\<open>resolveFrom.silent\<close>, \<open>require\<close>), the runtime's JSON and UTF-8 codecs,
  and what the Hermes compiler does to the files when it runs. The type \<open>'j\<close> is
  that of parsed JSON values.
\<close>

record 'j env =
  tmpdir :: path
  pid :: nat
  platform :: string
  deny :: "fscall \<Rightarrow> bool"
  resolveFrom_silent :: "path \<Rightarrow> string \<Rightarrow> path option"
  require_module :: "path \<Rightarrow> 'j list \<Rightarrow> error + 'j"
  JSON_parse :: "string \<Rightarrow> error + 'j"
  JSON_stringify :: "'j \<Rightarrow> string"
  utf8_encode :: "string \<Rightarrow> buffer"
  utf8_decode :: "buffer \<Rightarrow> string"
  hermesc :: "path \<Rightarrow> string list \<Rightarrow> (path \<rightharpoonup> node) \<Rightarrow> outcome \<times> (path \<rightharpoonup> node)"

subsection \<open>Paths\<close>

text \<open>
  \<open>path.join\<close> on a POSIX host, for a first argument that is normalised and not the
  root, and a second that is a plain name: the two joined by one separator.
\<close>

definition path_join :: "path \<Rightarrow> string \<Rightarrow> path" where
  "path_join a b = a @ ''/'' @ b"

definition dirname :: "path \<Rightarrow> path" where
  "dirname p = rev (drop 1 (dropWhile (\<lambda>c. c \<noteq> CHR ''/'') (rev p)))"

text \<open>A path is under a directory when it is the directory or lies below it.\<close>

definition is_under :: "path \<Rightarrow> path \<Rightarrow> bool" where
  "is_under d p \<longleftrightarrow> p = d \<or> startsWith p (d @ ''/'')"

text \<open>The decimal numeral of a number, as a template literal renders \<open>process.pid\<close>.\<close>

definition digit_char :: "nat \<Rightarrow> char" where
  "digit_char d = ''0123456789'' ! d"

function string_of_nat :: "nat \<Rightarrow> string" where
  "string_of_nat n =
     (if n < 10 then [digit_char n]
      else string_of_nat (n div 10) @ [digit_char (n mod 10)])"
  by pat_completeness auto
termination
  by (relation "measure id") auto

declare string_of_nat.simps [simp del]

subsection \<open>File-system calls\<close>

text \<open>
  Each call is logged, then either rejected (the state is otherwise unchanged) or
  carried out. \<open>ensureDir\<close> accepts a directory that exists already; \<open>remove\<close>
  deletes the path and everything below it, and accepts a path that does not exist.
\<close>

definition logged :: "event \<Rightarrow> fs \<Rightarrow> fs" where
  "logged ev s = s\<lparr>calls := calls s @ [ev]\<rparr>"

definition fs_ensureDir :: "'j env \<Rightarrow> path \<Rightarrow> fs \<Rightarrow> (error + unit) \<times> fs" where
  "fs_ensureDir env d s =
     (let s1 = logged (FsCall (EnsureDir d)) s in
      if deny env (EnsureDir d) then (Inl (SystemError (EnsureDir d)), s1)
      else (case nodes s1 d of
              Some (File _) \<Rightarrow> (Inl (SystemError (EnsureDir d)), s1)
            | _ \<Rightarrow> (Inr (), s1\<lparr>nodes := (nodes s1)(d \<mapsto> Dir)\<rparr>)))"

definition fs_writeFile :: "'j env \<Rightarrow> path \<Rightarrow> string \<Rightarrow> fs \<Rightarrow> (error + unit) \<times> fs" where
  "fs_writeFile env p text s =
     (let s1 = logged (FsCall (WriteFile p)) s in
      if deny env (WriteFile p) \<or> nodes s1 (dirname p) \<noteq> Some Dir \<or> nodes s1 p = Some Dir
      then (Inl (SystemError (WriteFile p)), s1)
      else (Inr (), s1\<lparr>nodes := (nodes s1)(p \<mapsto> File (utf8_encode env text))\<rparr>))"

definition fs_readFile :: "'j env \<Rightarrow> path \<Rightarrow> fs \<Rightarrow> (error + buffer) \<times> fs" where
  "fs_readFile env p s =
     (let s1 = logged (FsCall (ReadFile p)) s in
      if deny env (ReadFile p) then (Inl (SystemError (ReadFile p)), s1)
      else (case nodes s1 p of
              Some (File bs) \<Rightarrow> (Inr bs, s1)
            | _ \<Rightarrow> (Inl (SystemError (ReadFile p)), s1)))"

text \<open>\<open>fs.readJSON\<close>: the file's bytes, decoded and parsed.\<close>

definition fs_readJSON :: "'j env \<Rightarrow> path \<Rightarrow> fs \<Rightarrow> (error + 'j) \<times> fs" where
  "fs_readJSON env p s =
     (case fs_readFile env p s of
        (Inl e, s1) \<Rightarrow> (Inl e, s1)
      | (Inr bs, s1) \<Rightarrow> (JSON_parse env (utf8_decode env bs), s1))"

definition fs_remove :: "'j env \<Rightarrow> path \<Rightarrow> fs \<Rightarrow> (error + unit) \<times> fs" where
  "fs_remove env d s =
     (let s1 = logged (FsCall (Remove d)) s in
      if deny env (Remove d) then (Inl (SystemError (Remove d)), s1)
      else (Inr (), s1\<lparr>nodes := (\<lambda>p. if is_under d p then None else nodes s1 p)\<rparr>))"

text \<open>
  \<open>spawnAsync\<close> runs the command and waits; it resolves only when the process
  exits with code 0.
\<close>

definition spawnAsync :: "'j env \<Rightarrow> path \<Rightarrow> string list \<Rightarrow> fs \<Rightarrow> (error + unit) \<times> fs" where
  "spawnAsync env cmd args s =
     (let s1 = logged (SpawnCall cmd args) s in
      (case hermesc env cmd args (nodes s1) of
         (oc, ns) \<Rightarrow>
           (if oc = Exited 0 then Inr () else Inl (SpawnError oc), s1\<lparr>nodes := ns\<rparr>)))"

section \<open>The Hermes build\<close>

subsection \<open>Sequencing with failure\<close>

text \<open>
  An asynchronous step takes the state and returns its result, a rejection
  (\<open>Inl\<close>) or a value, with the state it leaves. \<open>and_then\<close> is \<open>await\<close> followed
  by the rest of the function: a rejection skips the rest.
\<close>

type_synonym 'a step = "fs \<Rightarrow> (error + 'a) \<times> fs"

definition and_then :: "'a step \<Rightarrow> ('a \<Rightarrow> 'b step) \<Rightarrow> 'b step" where
  "and_then m f s =
     (case m s of
        (Inl e, s1) \<Rightarrow> (Inl e, s1)
      | (Inr x, s1) \<Rightarrow> f x s1)"

definition settle :: "(error + 'a) \<Rightarrow> 'a step" where
  "settle r s = (r, s)"

text \<open>
  \<open>try { body } finally { fin }\<close>: the finaliser runs after the body however the
  body ended. When the finaliser itself throws, its error is the one that leaves
  the statement; otherwise the body's completion does.
\<close>

definition try_finally :: "'a step \<Rightarrow> unit step \<Rightarrow> 'a step" where
  "try_finally body fin s =
     (case body s of
        (r, s1) \<Rightarrow>
          (case fin s1 of
             (Inl e, s2) \<Rightarrow> (Inl e, s2)
           | (Inr _, s2) \<Rightarrow> (r, s2)))"

text \<open>
  \<open>Promise.all\<close> of two promises: both operations are started, in array order, and
  both values are needed. When both reject, which rejection settles the result is
  a matter of timing; the model reports the first in array order.
\<close>

definition promise_all :: "'a step \<Rightarrow> 'b step \<Rightarrow> ('a \<times> 'b) step" where
  "promise_all p q s =
     (case p s of
        (r1, s1) \<Rightarrow>
          (case q s1 of
             (r2, s2) \<Rightarrow>
               ((case r1 of
                   Inl e \<Rightarrow> Inl e
                 | Inr a \<Rightarrow> (case r2 of Inl e \<Rightarrow> Inl e | Inr b \<Rightarrow> Inr (a, b))),
                s2)))"

subsection \<open>Resolving the compiler and the composition function\<close>

definition getHermesCommandPlatform :: "'j env \<Rightarrow> error + string" where
  "getHermesCommandPlatform env =
     (if platform env = ''darwin'' then Inr ''osx-bin/hermesc''
      else if platform env = ''linux'' then Inr ''linux64-bin/hermesc''
      else if platform env = ''win32'' then Inr ''win64-bin/hermesc.exe''
      else Inl (Error (''Unsupported host platform for Hermes compiler: '' @ platform env)))"

definition getHermesCommand :: "'j env \<Rightarrow> path \<Rightarrow> error + path" where
  \<open>getHermesCommand env projectRoot =
     (case getHermesCommandPlatform env of
        Inl e \<Rightarrow> Inl e
      | Inr platformExecutable \<Rightarrow>
          (case resolveFrom_silent env projectRoot (''hermes-engine/'' @ platformExecutable) of
             None \<Rightarrow>
               Inl (Error (''Missing module "hermes-engine/'' @ platformExecutable
                 @ ''" in the project.''
                 @ ''This usually means hermes-engine is not installed. ''
                 @ ''Please verify that dependencies in package.json include "react-native" ''
                 @ ''and run `yarn` or `npm install`.''))
           | Some resolvedPath \<Rightarrow> Inr resolvedPath))\<close>

definition importMetroSourceMapFromProject ::
  "'j env \<Rightarrow> path \<Rightarrow> error + ('j list \<Rightarrow> error + 'j)" where
  \<open>importMetroSourceMapFromProject env projectRoot =
     (case resolveFrom_silent env projectRoot ''metro-source-map/src/composeSourceMaps'' of
        None \<Rightarrow>
          Inl (Error (''Missing module "metro-source-map/src/composeSourceMaps" in the project. ''
            @ ''This usually means React Native is not installed. ''
            @ ''Please verify that dependencies in package.json include "react-native" ''
            @ ''and run `yarn` or `npm install`.''))
      | Some resolvedPath \<Rightarrow> Inr (require_module env resolvedPath))\<close>

subsection \<open>createHermesSourcemapAsync\<close>

definition createHermesSourcemapAsync ::
  "'j env \<Rightarrow> path \<Rightarrow> string \<Rightarrow> path \<Rightarrow> string step" where
  "createHermesSourcemapAsync env projectRoot sourcemap hermesMapFile =
     and_then (settle (importMetroSourceMapFromProject env projectRoot)) (\<lambda>composeSourceMaps.
     and_then (settle (JSON_parse env sourcemap)) (\<lambda>bundlerSourcemap.
     and_then (fs_readJSON env hermesMapFile) (\<lambda>hermesSourcemap.
     and_then (settle (composeSourceMaps [bundlerSourcemap, hermesSourcemap])) (\<lambda>composed.
     settle (Inr (JSON_stringify env composed))))))"

subsection \<open>buildHermesBundleAsync\<close>

record HermesBundleOutput =
  hbc :: buffer
  sourcemap :: string

text \<open>The workspace path of source line 29.\<close>

definition tempDir_of :: "'j env \<Rightarrow> path" where
  "tempDir_of env = path_join (tmpdir env) (''expo-bundler-'' @ string_of_nat (pid env))"

text \<open>The argument list of source lines 39 to 42.\<close>

definition hermes_args :: "path \<Rightarrow> path \<Rightarrow> bool \<Rightarrow> string list" where
  "hermes_args tempHbcFile tempBundleFile optimize =
     (let args = [''-emit-binary'', ''-out'', tempHbcFile, tempBundleFile, ''-output-source-map'']
      in if optimize then args @ [''-O''] else args)"

text \<open>The body of the \<open>try\<close> block, source lines 32 to 52.\<close>

definition build_body ::
  "'j env \<Rightarrow> path \<Rightarrow> path \<Rightarrow> string \<Rightarrow> string \<Rightarrow> bool \<Rightarrow> HermesBundleOutput step" where
  "build_body env tempDir projectRoot code map' optimize =
     (let tempBundleFile = path_join tempDir ''index.bundle'';
          tempSourcemapFile = path_join tempDir ''index.bundle.map'';
          tempHbcFile = path_join tempDir ''index.hbc''
      in
      and_then (fs_writeFile env tempBundleFile code) (\<lambda>_.
      and_then (fs_writeFile env tempSourcemapFile map') (\<lambda>_.
      and_then (settle (getHermesCommand env projectRoot)) (\<lambda>hermesCommand.
      and_then (spawnAsync env hermesCommand (hermes_args tempHbcFile tempBundleFile optimize)) (\<lambda>_.
      and_then (promise_all (fs_readFile env tempHbcFile)
                  (createHermesSourcemapAsync env projectRoot map' (tempHbcFile @ ''.map'')))
        (\<lambda>(hbc, sourcemap).
      settle (Inr \<lparr>hbc = hbc, sourcemap = sourcemap\<rparr>)))))))"

definition buildHermesBundleAsync ::
  "'j env \<Rightarrow> path \<Rightarrow> string \<Rightarrow> string \<Rightarrow> bool \<Rightarrow> HermesBundleOutput step" where
  "buildHermesBundleAsync env projectRoot code map' optimize =
     (let tempDir = tempDir_of env in
      and_then (fs_ensureDir env tempDir) (\<lambda>_.
      try_finally (build_body env tempDir projectRoot code map' optimize)
        (fs_remove env tempDir)))"

subsection \<open>What the build is compared with\<close>

text \<open>What a log holds of one kind of event, oldest first.\<close>

definition events_of :: "(event \<Rightarrow> 'x list) \<Rightarrow> fs \<Rightarrow> 'x list" where
  "events_of proj s = concat (map proj (calls s))"

text \<open>The compiler invocations in a log: command and arguments.\<close>

fun spawn_of :: "event \<Rightarrow> (path \<times> string list) list" where
  "spawn_of (SpawnCall cmd args) = [(cmd, args)]"
| "spawn_of (FsCall c) = []"

definition spawn_calls :: "fs \<Rightarrow> (path \<times> string list) list" where
  "spawn_calls s = events_of spawn_of s"

text \<open>The workspaces in a log: the directories that \<open>ensureDir\<close> was called on.\<close>

fun workspace_of :: "event \<Rightarrow> path list" where
  "workspace_of (FsCall (EnsureDir d)) = [d]"
| "workspace_of ev = []"

definition workspaces :: "fs \<Rightarrow> path list" where
  "workspaces s = events_of workspace_of s"

section \<open>The bytecode header\<close>

subsection \<open>Buffers\<close>

definition Buffer_alloc :: "nat \<Rightarrow> buffer" where
  "Buffer_alloc n = replicate n 0"

text \<open>\<open>slice(start, end)\<close> for indices that are not negative.\<close>

definition Buffer_slice :: "buffer \<Rightarrow> nat \<Rightarrow> nat \<Rightarrow> buffer" where
  "Buffer_slice buf start end = take (end - start) (drop start buf)"

definition hex_digit :: "nat \<Rightarrow> char" where
  "hex_digit d = ''0123456789abcdef'' ! d"

text \<open>\<open>toString('hex')\<close>: two lower-case digits for each byte.\<close>

definition toString_hex :: "buffer \<Rightarrow> string" where
  "toString_hex buf =
     concat (map (\<lambda>b. [hex_digit (unat b div 16), hex_digit (unat b mod 16)]) buf)"

text \<open>\<open>readUInt32LE(offset)\<close>: four bytes, least significant first, or a range error.\<close>

definition readUInt32LE :: "buffer \<Rightarrow> nat \<Rightarrow> error + nat" where
  "readUInt32LE buf offset =
     (if offset + 4 > length buf then Inl RangeError
      else Inr (unat (buf ! offset)
                + unat (buf ! (offset + 1)) * 2 ^ 8
                + unat (buf ! (offset + 2)) * 2 ^ 16
                + unat (buf ! (offset + 3)) * 2 ^ 24))"

subsection \<open>Reading through a file descriptor\<close>

text \<open>
  The three header functions only read the file system, so they take it as it is
  and return a result. A descriptor is the path it was opened on.
  \<open>fs.read(fd, buffer, offset, length, null)\<close> copies at most \<open>length\<close> bytes from
  the start of the file into the buffer at \<open>offset\<close> and leaves the rest of the
  buffer as it was; reading fewer bytes than asked for is not an error.
\<close>

definition fs_open :: "'j env \<Rightarrow> fs \<Rightarrow> path \<Rightarrow> error + path" where
  "fs_open env s file =
     (if deny env (Open file) \<or> nodes s file = None then Inl (SystemError (Open file))
      else Inr file)"

definition fs_read :: "'j env \<Rightarrow> fs \<Rightarrow> path \<Rightarrow> buffer \<Rightarrow> nat \<Rightarrow> nat \<Rightarrow> error + buffer" where
  "fs_read env s fd buffer offset len =
     (if offset + len > length buffer then Inl RangeError
      else if deny env (Read fd) then Inl (SystemError (Read fd))
      else (case nodes s fd of
              Some (File bs) \<Rightarrow>
                (let data = take len bs
                 in Inr (take offset buffer @ data @ drop (offset + length data) buffer))
            | _ \<Rightarrow> Inl (SystemError (Read fd))))"

definition fs_close :: "'j env \<Rightarrow> path \<Rightarrow> error + unit" where
  "fs_close env fd = (if deny env (Close fd) then Inl (SystemError (Close fd)) else Inr ())"

subsection \<open>The header functions\<close>

definition HERMES_MAGIC_HEADER :: string where
  "HERMES_MAGIC_HEADER = ''c61fbc03c103191f''"

definition readHermesHeaderAsync :: "'j env \<Rightarrow> fs \<Rightarrow> path \<Rightarrow> error + buffer" where
  "readHermesHeaderAsync env s file =
     (case fs_open env s file of
        Inl e \<Rightarrow> Inl e
      | Inr fd \<Rightarrow>
          (case fs_read env s fd (Buffer_alloc 12) 0 12 of
             Inl e \<Rightarrow> Inl e
           | Inr buffer \<Rightarrow>
               (case fs_close env fd of
                  Inl e \<Rightarrow> Inl e
                | Inr _ \<Rightarrow> Inr buffer)))"

definition isHermesBytecodeBundleAsync :: "'j env \<Rightarrow> fs \<Rightarrow> path \<Rightarrow> error + bool" where
  "isHermesBytecodeBundleAsync env s file =
     (case readHermesHeaderAsync env s file of
        Inl e \<Rightarrow> Inl e
      | Inr header \<Rightarrow> Inr (toString_hex (Buffer_slice header 0 8) = HERMES_MAGIC_HEADER))"

definition getHermesBytecodeBundleVersionAsync :: "'j env \<Rightarrow> fs \<Rightarrow> path \<Rightarrow> error + nat" where
  "getHermesBytecodeBundleVersionAsync env s file =
     (case readHermesHeaderAsync env s file of
        Inl e \<Rightarrow> Inl e
      | Inr header \<Rightarrow>
          (if toString_hex (Buffer_slice header 0 8) \<noteq> HERMES_MAGIC_HEADER
           then Inl (Error ''Invalid hermes bundle file'')
           else readUInt32LE header 8))"

subsection \<open>What the header functions are compared with\<close>

text \<open>The magic constant as bytes: \<open>c6 1f bc 03 c1 03 19 1f\<close>.\<close>

definition magic_bytes :: buffer where
  "magic_bytes = [0xc6, 0x1f, 0xbc, 0x03, 0xc1, 0x03, 0x19, 0x1f]"

text \<open>
  A readable file: a regular file with the given bytes, on which the system rejects
  none of the three calls \<open>readHermesHeaderAsync\<close> makes.
\<close>

definition readable :: "'j env \<Rightarrow> fs \<Rightarrow> path \<Rightarrow> buffer \<Rightarrow> bool" where
  "readable env s file bs \<longleftrightarrow>
     nodes s file = Some (File bs) \<and> \<not> deny env (Open file)
     \<and> \<not> deny env (Read file) \<and> \<not> deny env (Close file)"

section \<open>A test environment\<close>

text \<open>
  A concrete host on which the functions above can be run: a Linux machine whose
  temporary directory is \<open>/tmp\<close>, process 4242, a project in which both modules
  resolve, no rejected file-system call, and a compiler that copies its input to
  the output path and writes a map beside it.
\<close>

text \<open>
  A source map, reduced to what the composition example needs: segments that send
  a position in the generated file to a source file and a line in it.
\<close>

type_synonym srcmap = "(nat \<times> string \<times> nat) list"

text \<open>
  Modelled from the spec: the composition function is \<open>composeSourceMaps\<close> of the
  package \<open>metro-source-map\<close>, loaded from the host project and not among the
  sources. This one follows section 3 of the specification: every segment of the
  compiler's map is kept, its source reference replaced by what the bundler's map
  gives for that line; a segment with no entry in the bundler's map passes through.
\<close>

definition compose_pair :: "srcmap \<Rightarrow> srcmap \<Rightarrow> srcmap" where
  "compose_pair bundlerMap compilerMap =
     map (\<lambda>(pos, src, line).
            (case map_of bundlerMap line of
               None \<Rightarrow> (pos, src, line)
             | Some (src', line') \<Rightarrow> (pos, src', line')))
       compilerMap"

definition stub_compose :: "srcmap list \<Rightarrow> error + srcmap" where
  "stub_compose maps =
     (case maps of
        [bundlerMap, compilerMap] \<Rightarrow> Inr (compose_pair bundlerMap compilerMap)
      | _ \<Rightarrow> Inl ComposeError)"

text \<open>
  The codecs of the test environment know two documents: \<open>BUNDLER\<close>, the bundler's
  map sending bundle line 3 to line 1 of \<open>a.js\<close>, and \<open>COMPILER\<close>, the compiler's map
  sending bytecode offset 10 to bundle line 3.
\<close>

definition stub_parse :: "string \<Rightarrow> error + srcmap" where
  "stub_parse text =
     (if text = ''BUNDLER'' then Inr [(3, ''a.js'', 1)]
      else if text = ''COMPILER'' then Inr [(10, ''index.bundle'', 3)]
      else Inl SyntaxError)"

definition stub_stringify :: "srcmap \<Rightarrow> string" where
  "stub_stringify m =
     concat (map (\<lambda>(pos, src, line).
                    string_of_nat pos @ ''>'' @ src @ '':'' @ string_of_nat line @ '';'') m)"

definition stub_encode :: "string \<Rightarrow> buffer" where
  "stub_encode text = map (\<lambda>c. of_nat (of_char c)) text"

definition stub_decode :: "buffer \<Rightarrow> string" where
  "stub_decode bs = map (\<lambda>b. char_of (unat b)) bs"

definition stub_hermesc ::
  "path \<Rightarrow> string list \<Rightarrow> (path \<rightharpoonup> node) \<Rightarrow> outcome \<times> (path \<rightharpoonup> node)" where
  "stub_hermesc cmd args ns =
     (case args of
        emit # out_flag # out # inp # rest \<Rightarrow>
          (case ns inp of
             Some (File bs) \<Rightarrow>
               (Exited 0, ns(out \<mapsto> File bs, out @ ''.map'' \<mapsto> File (stub_encode ''COMPILER'')))
           | _ \<Rightarrow> (Exited 1, ns))
      | _ \<Rightarrow> (Exited 2, ns))"

definition stub_env :: "srcmap env" where
  "stub_env =
     \<lparr>tmpdir = ''/tmp'', pid = 4242, platform = ''linux'',
      deny = (\<lambda>_. False),
      resolveFrom_silent = (\<lambda>root m. Some (root @ ''/node_modules/'' @ m)),
      require_module = (\<lambda>_. stub_compose),
      JSON_parse = stub_parse, JSON_stringify = stub_stringify,
      utf8_encode = stub_encode, utf8_decode = stub_decode,
      hermesc = stub_hermesc\<rparr>"

text \<open>The same host with a compiler that exits with code 1 and writes nothing.\<close>

definition failing_env :: "srcmap env" where
  "failing_env = stub_env\<lparr>hermesc := (\<lambda>cmd args ns. (Exited 1, ns))\<rparr>"

text \<open>A host that also rejects the removal of the workspace.\<close>

definition denying_env :: "srcmap env" where
  "denying_env = failing_env\<lparr>deny := (\<lambda>c. c = Remove ''/tmp/expo-bundler-4242'')\<rparr>"

definition empty_fs :: fs where
  "empty_fs = \<lparr>nodes = Map.empty, calls = []\<rparr>"

text \<open>A file system holding one file with the given bytes.\<close>

definition one_file :: "path \<Rightarrow> buffer \<Rightarrow> fs" where
  "one_file p bs = \<lparr>nodes = [p \<mapsto> File bs], calls = []\<rparr>"

section \<open>Properties of the property-file parser\<close>

subsection \<open>The index arithmetic of the loop body\<close>

lemma indexOf_eq:
  "indexOf s x = (if x \<in> set s then int (length (takeWhile (\<lambda>c. c \<noteq> x) s)) else -1)"
  by (induction s) (auto simp: Let_def)

lemma substr_take: "substr s 0 (Some (int n)) = take n s"
  by (simp add: substr_def Let_def min_def)

lemma substr_neg: "substr s 0 (Some (-1)) = []"
  by (simp add: substr_def Let_def)

lemma substr_drop: "substr s (int n) None = drop n s"
  by (auto simp add: substr_def Let_def min_def)

lemma key_value_eq:
  "(substr l 0 (Some (indexOf l (CHR ''=''))), substr l (indexOf l (CHR ''='') + 1) None) = entry_of l"
proof (cases "CHR ''='' \<in> set l")
  case True
  let ?n = "length (takeWhile (\<lambda>c. c \<noteq> CHR ''='') l)"
  have i: "indexOf l (CHR ''='') = int ?n" using True by (simp add: indexOf_eq)
  have k: "substr l 0 (Some (int ?n)) = takeWhile (\<lambda>c. c \<noteq> CHR ''='') l"
    by (simp add: substr_take takeWhile_eq_take [symmetric])
  have "int ?n + 1 = int (Suc ?n)" by simp
  then have "substr l (int ?n + 1) None = substr l (int (Suc ?n)) None" by (rule arg_cong)
  also have "\<dots> = drop (Suc ?n) l" by (rule substr_drop)
  also have "\<dots> = drop 1 (dropWhile (\<lambda>c. c \<noteq> CHR ''='') l)"
    by (simp add: dropWhile_eq_drop)
  finally show ?thesis using True i k by (simp add: entry_of_def split_first_eq_def)
next
  case False
  then have i: "indexOf l (CHR ''='') = -1" by (simp add: indexOf_eq)
  have "substr l 0 None = drop 0 l" using substr_drop [of l 0] by simp
  then show ?thesis using False i by (simp add: entry_of_def substr_neg)
qed

lemma parse_line_eq:
  "parse_line m l0 =
     (if entry_line (trim l0) then set_prop m (fst (entry_of (trim l0))) (snd (entry_of (trim l0)))
      else m)"
  using key_value_eq [of "trim l0", symmetric]
  by (simp add: parse_line_def Let_def entry_line_def)

lemma foldl_parse_line:
  "k \<noteq> ''__proto__'' \<Longrightarrow>
   foldl parse_line m ls k =
     (case map_of (rev (map entry_of (filter entry_line (map trim ls)))) k of
        None \<Rightarrow> m k | Some v \<Rightarrow> Some v)"
proof (induction ls arbitrary: m)
  case Nil
  then show ?case by simp
next
  case (Cons l ls)
  let ?es = "rev (map entry_of (filter entry_line (map trim ls)))"
  have "foldl parse_line m (l # ls) k = foldl parse_line (parse_line m l) ls k" by simp
  also have "\<dots> = (case map_of ?es k of None \<Rightarrow> parse_line m l k | Some v \<Rightarrow> Some v)"
    by (rule Cons.IH [OF Cons.prems])
  finally have unfolded: "foldl parse_line m (l # ls) k =
      (case map_of ?es k of None \<Rightarrow> parse_line m l k | Some v \<Rightarrow> Some v)" .
  show ?case
  proof (cases "entry_line (trim l)")
    case True
    then have "parse_line m l k = (if fst (entry_of (trim l)) = k then Some (snd (entry_of (trim l))) else m k)"
      using Cons.prems by (auto simp: parse_line_eq set_prop_def)
    then show ?thesis using True unfolded
      by (auto simp: map_add_def prod_eq_iff split: option.splits)
  next
    case False
    then have "parse_line m l k = m k" by (simp add: parse_line_eq)
    then show ?thesis using False unfolded by (simp split: option.splits)
  qed
qed

lemma foldl_parse_line_proto:
  "foldl parse_line m ls ''__proto__'' = m ''__proto__''"
proof (induction ls arbitrary: m)
  case Nil
  show ?case by simp
next
  case (Cons l ls)
  have "parse_line m l ''__proto__'' = m ''__proto__''"
    by (simp add: parse_line_eq set_prop_def)
  then show ?case using Cons.IH [of "parse_line m l"] by simp
qed

lemma map_of_first:
  "map_of (map f xs) k =
     (case filter (\<lambda>x. fst (f x) = k) xs of [] \<Rightarrow> None | x # _ \<Rightarrow> Some (snd (f x)))"
  by (induction xs) (auto simp: prod_eq_iff split: list.splits)

subsection \<open>Entries with a separator\<close>

lemma map_of_entries_with_eq:
  "k \<noteq> [] \<Longrightarrow>
   map_of (map entry_of es) k
     = map_of (map split_first_eq (filter (\<lambda>l. CHR ''='' \<in> set l) es)) k"
  by (induction es) (auto simp: entry_of_def)

text \<open>
  Claim C8, as the source has it. The parser works on trimmed lines and drops the
  lines that are empty or start with \<open>#\<close> once trimmed. For every input and every
  key other than \<open>__proto__\<close>, the result holds what the last remaining line with
  that key stores. For a key that is not empty these are the lines that hold a
  \<open>=\<close>, key and value being the two sides of the first \<open>=\<close> of the trimmed line:
  the value keeps the white space that follows the \<open>=\<close>, the white space at the
  end of the line is gone with the trimming, and lines without \<open>=\<close> change
  nothing for such a key. The key \<open>__proto__\<close> is never stored. The input of the
  specification's example gives the two entries it names.
\<close>

theorem parseGradleProperties_entries:
  "parseGradleProperties content k =
     (if k = ''__proto__'' then None
      else map_of (rev (map entry_of (entry_lines content))) k)
   \<and> (k \<noteq> [] \<and> k \<noteq> ''__proto__'' \<longrightarrow>
        parseGradleProperties content k =
          map_of (rev (map split_first_eq
                    (filter (\<lambda>l. CHR ''='' \<in> set l) (entry_lines content)))) k)
   \<and> parseGradleProperties ''a=1\<newline># comment\<newline>\<newline>b=two=three\<newline>''
       = [''a'' \<mapsto> ''1'', ''b'' \<mapsto> ''two=three'']"
proof -
  let ?es = "entry_lines content"
  have full: "parseGradleProperties content k =
     (if k = ''__proto__'' then None else map_of (rev (map entry_of ?es)) k)"
  proof (cases "k = ''__proto__''")
    case True
    then show ?thesis by (simp add: parseGradleProperties_def foldl_parse_line_proto)
  next
    case False
    have "parseGradleProperties content k =
        (case map_of (rev (map entry_of ?es)) k of None \<Rightarrow> None | Some v \<Rightarrow> Some v)"
      unfolding parseGradleProperties_def entry_lines_def
      using foldl_parse_line [OF False, of Map.empty] by simp
    then show ?thesis using False by (simp split: option.splits)
  qed
  have per_key: "parseGradleProperties content k =
          map_of (rev (map split_first_eq (filter (\<lambda>l. CHR ''='' \<in> set l) ?es))) k"
    if "k \<noteq> []" and "k \<noteq> ''__proto__''"
  proof -
    have "map_of (rev (map entry_of ?es)) k = map_of (map entry_of (rev ?es)) k"
      by (simp add: rev_map)
    also have "\<dots> = map_of (map split_first_eq (filter (\<lambda>l. CHR ''='' \<in> set l) (rev ?es))) k"
      by (rule map_of_entries_with_eq [OF that(1)])
    also have "\<dots> = map_of (rev (map split_first_eq (filter (\<lambda>l. CHR ''='' \<in> set l) ?es))) k"
      by (simp add: rev_map rev_filter)
    finally show ?thesis using full that(2) by simp
  qed
  have example: "parseGradleProperties ''a=1\<newline># comment\<newline>\<newline>b=two=three\<newline>''
       = [''a'' \<mapsto> ''1'', ''b'' \<mapsto> ''two=three'']"
    by (simp add: parseGradleProperties_def parse_line_def trim_def is_js_space_def substr_def set_prop_def)
  show ?thesis using full per_key example by blast
qed

theorem parseGradleProperties_entries_witness:
  "''a'' \<noteq> [] \<and> ''a'' \<noteq> ''__proto__''
   \<and> entry_lines ''foo\<newline>a = 1 \<newline>  # c\<newline>\<newline>a=2\<newline>=x\<newline>b=two=three''
       = [''foo'', ''a = 1'', ''a=2'', ''=x'', ''b=two=three'']
   \<and> parseGradleProperties ''foo\<newline>a = 1 \<newline>  # c\<newline>\<newline>a=2\<newline>=x\<newline>b=two=three'' ''a''
       = Some ''2''
   \<and> parseGradleProperties ''foo\<newline>a = 1 \<newline>  # c\<newline>\<newline>a=2\<newline>=x\<newline>b=two=three'' ''a ''
       = Some '' 1''
   \<and> parseGradleProperties ''foo\<newline>a = 1 \<newline>  # c\<newline>\<newline>a=2\<newline>=x\<newline>b=two=three'' ''b''
       = Some ''two=three''
   \<and> parseGradleProperties ''foo\<newline>a = 1 \<newline>  # c\<newline>\<newline>a=2\<newline>=x\<newline>b=two=three'' ''foo''
       = None"
proof -
  let ?c = "''foo\<newline>a = 1 \<newline>  # c\<newline>\<newline>a=2\<newline>=x\<newline>b=two=three''"
  have e: "entry_lines ?c = [''foo'', ''a = 1'', ''a=2'', ''=x'', ''b=two=three'']"
    by (simp add: entry_lines_def entry_line_def trim_def is_js_space_def)
  show ?thesis
    using parseGradleProperties_entries [of ?c "''a''"]
      parseGradleProperties_entries [of ?c "''a ''"]
      parseGradleProperties_entries [of ?c "''b''"]
      parseGradleProperties_entries [of ?c "''foo''"]
    by (simp add: e split_first_eq_def entry_of_def)
qed

text \<open>
  Claim C8 as it is worded has the value untrimmed. The line \<open>a=1\<close> followed by a
  space is neither blank nor a comment, and splitting it on its first \<open>=\<close> gives
  the value \<open>1\<close> followed by a space; the parser stores \<open>1\<close>.
\<close>

theorem parseGradleProperties_trims_value:
  "entry_lines ''a=1 '' \<noteq> [] \<and> \<not> startsWith ''a=1 '' ''#''
   \<and> split_first_eq ''a=1 '' = (''a'', ''1 '')
   \<and> parseGradleProperties ''a=1 '' = [''a'' \<mapsto> ''1'']
   \<and> parseGradleProperties ''a=1 '' ''a'' \<noteq> Some (snd (split_first_eq ''a=1 ''))"
  by (simp add: parseGradleProperties_def parse_line_def trim_def is_js_space_def substr_def
      set_prop_def split_first_eq_def entry_lines_def entry_line_def)

subsection \<open>The empty key\<close>

lemma empty_key_iff:
  "l \<noteq> [] \<Longrightarrow> fst (entry_of l) = [] \<longleftrightarrow> empty_key_line l"
  by (cases l) (auto simp: entry_of_def split_first_eq_def empty_key_line_def)

lemma empty_key_value:
  "snd (entry_of l) = (if CHR ''='' \<in> set l then drop 1 (dropWhile (\<lambda>c. c \<noteq> CHR ''='') l) else l)"
  by (simp add: entry_of_def split_first_eq_def)

lemma filter_entry_empty_key:
  "filter (\<lambda>l. entry_line l \<and> fst (entry_of l) = []) ls
     = filter (\<lambda>l. entry_line l \<and> empty_key_line l) ls"
  by (rule filter_cong) (auto simp: entry_line_def empty_key_iff)

text \<open>
  Claim C10, as the source has it. A line that, once trimmed, is not empty, does
  not start with \<open>#\<close> and holds no \<open>=\<close> is not skipped: the whole trimmed line is
  stored under the empty key. The result holds the empty key exactly when some
  entry line has no \<open>=\<close> or starts with \<open>=\<close>, and its value comes from the last
  such line: the line itself, or what follows its leading \<open>=\<close>.
\<close>

theorem parseGradleProperties_empty_key:
  "(entry_line (trim line) \<and> CHR ''='' \<notin> set (trim line) \<longrightarrow>
      parse_line result line = result([] \<mapsto> trim line))
   \<and> parseGradleProperties content [] =
       (case rev (filter empty_key_line (entry_lines content)) of
          [] \<Rightarrow> None
        | l # _ \<Rightarrow> Some (if CHR ''='' \<in> set l then tl l else l))"
proof (intro conjI impI)
  assume "entry_line (trim line) \<and> CHR ''='' \<notin> set (trim line)"
  then show "parse_line result line = result([] \<mapsto> trim line)"
    by (simp add: parse_line_eq entry_of_def set_prop_def)
next
  let ?es = "entry_lines content"
  have ne: "[] \<noteq> ''__proto__''" by simp
  have "parseGradleProperties content [] =
      (case map_of (map entry_of (rev ?es)) [] of None \<Rightarrow> None | Some v \<Rightarrow> Some v)"
    unfolding parseGradleProperties_def entry_lines_def
    using foldl_parse_line [OF ne, of Map.empty] by (simp add: rev_map)
  also have "\<dots> = map_of (map entry_of (rev ?es)) []"
    by (simp split: option.splits)
  also have "\<dots> = (case filter (\<lambda>l. fst (entry_of l) = []) (rev ?es) of
        [] \<Rightarrow> None | l # _ \<Rightarrow> Some (snd (entry_of l)))"
    by (rule map_of_first)
  also have "filter (\<lambda>l. fst (entry_of l) = []) (rev ?es) = rev (filter empty_key_line ?es)"
    unfolding entry_lines_def by (simp add: rev_filter filter_entry_empty_key)
  finally have main: "parseGradleProperties content [] =
      (case rev (filter empty_key_line ?es) of [] \<Rightarrow> None | l # _ \<Rightarrow> Some (snd (entry_of l)))" .
  show "parseGradleProperties content [] =
       (case rev (filter empty_key_line ?es) of
          [] \<Rightarrow> None
        | l # _ \<Rightarrow> Some (if CHR ''='' \<in> set l then tl l else l))"
  proof (cases "rev (filter empty_key_line ?es)")
    case Nil
    then show ?thesis using main by simp
  next
    case (Cons l ls)
    then have "l \<in> set (filter empty_key_line ?es)"
      by (metis list.set_intros(1) set_rev)
    then have ek: "empty_key_line l" by simp
    have "snd (entry_of l) = (if CHR ''='' \<in> set l then tl l else l)"
    proof (cases "CHR ''='' \<in> set l")
      case True
      with ek have "startsWith l ''=''" by (simp add: empty_key_line_def)
      then obtain cs where "l = CHR ''='' # cs" by (cases l) auto
      then show ?thesis by (simp add: entry_of_def split_first_eq_def)
    next
      case False
      then show ?thesis by (simp add: entry_of_def)
    qed
    then show ?thesis using main Cons by simp
  qed
qed

theorem parseGradleProperties_empty_key_witness:
  "entry_line (trim '' foo '') \<and> CHR ''='' \<notin> set (trim '' foo '')
   \<and> parse_line [''a'' \<mapsto> ''1''] '' foo '' = [''a'' \<mapsto> ''1'', [] \<mapsto> ''foo'']
   \<and> parseGradleProperties ''foo\<newline>a=1\<newline>bar\<newline>#baz'' [] = Some ''bar''"
proof -
  have h: "entry_line (trim '' foo '') \<and> CHR ''='' \<notin> set (trim '' foo '')"
    by (simp add: entry_line_def trim_def is_js_space_def)
  have t: "trim '' foo '' = ''foo''" by (simp add: trim_def is_js_space_def)
  have e: "entry_lines ''foo\<newline>a=1\<newline>bar\<newline>#baz'' = [''foo'', ''a=1'', ''bar'']"
    by (simp add: entry_lines_def entry_line_def trim_def is_js_space_def)
  show ?thesis
    using h parseGradleProperties_empty_key [of "'' foo ''" "[''a'' \<mapsto> ''1'']" "''foo\<newline>a=1\<newline>bar\<newline>#baz''"]
    by (simp add: e t empty_key_line_def)
qed

text \<open>
  Claim C10 as it is worded makes a line without \<open>=\<close> the only source of the empty
  key. The line \<open>=x\<close> holds a \<open>=\<close> and stores \<open>x\<close> under the empty key.
\<close>

theorem parseGradleProperties_empty_key_from_eq:
  "entry_line (trim ''=x'') \<and> CHR ''='' \<in> set (trim ''=x'')
   \<and> parseGradleProperties ''=x'' = [[] \<mapsto> ''x'']"
  by (simp add: parseGradleProperties_def parse_line_def trim_def is_js_space_def substr_def
      set_prop_def entry_line_def)

section \<open>Properties of the header functions\<close>

subsection \<open>The header of a readable file, and the magic test\<close>

lemma readHermesHeaderAsync_readable:
  assumes "readable env s file bs"
  shows "readHermesHeaderAsync env s file = Inr (take 12 bs @ replicate (12 - length bs) 0)"
  using assms
  by (simp add: readable_def readHermesHeaderAsync_def fs_open_def fs_read_def fs_close_def
      Buffer_alloc_def Let_def min_def)

lemma hex_digit_inj:
  assumes "a < 16" "b < 16" "hex_digit a = hex_digit b"
  shows "a = b"
proof -
  have d: "distinct ''0123456789abcdef''" by simp
  have l: "length ''0123456789abcdef'' = 16" by simp
  show ?thesis using assms nth_eq_iff_index_eq [OF d, of a b] by (simp add: hex_digit_def)
qed

lemma hex_byte_inj:
  fixes x y :: byte
  assumes "[hex_digit (unat x div 16), hex_digit (unat x mod 16)]
         = [hex_digit (unat y div 16), hex_digit (unat y mod 16)]"
  shows "x = y"
proof -
  have bx: "unat x < 256" using unsigned_less [of x, where ?'a = nat] by simp
  have by': "unat y < 256" using unsigned_less [of y, where ?'a = nat] by simp
  have "unat x div 16 = unat y div 16"
    using assms bx by' by (intro hex_digit_inj) auto
  moreover have "unat x mod 16 = unat y mod 16"
    using assms by (intro hex_digit_inj) auto
  ultimately have "unat x = unat y"
    by (metis div_mult_mod_eq)
  then show ?thesis by (rule unsigned_word_eqI)
qed

lemma toString_hex_inj: "toString_hex a = toString_hex b \<Longrightarrow> a = b"
proof (induction a arbitrary: b)
  case Nil
  then show ?case by (cases b) (simp_all add: toString_hex_def)
next
  case (Cons x xs)
  then obtain y ys where b: "b = y # ys" by (cases b) (auto simp: toString_hex_def)
  from Cons.prems b have "x = y" and "toString_hex xs = toString_hex ys"
    using hex_byte_inj [of x y] by (auto simp: toString_hex_def)
  then show ?case using Cons.IH b by simp
qed

lemma toString_hex_magic: "toString_hex magic_bytes = HERMES_MAGIC_HEADER"
  by (simp add: toString_hex_def magic_bytes_def HERMES_MAGIC_HEADER_def hex_digit_def)

lemma magic_test: "toString_hex b = HERMES_MAGIC_HEADER \<longleftrightarrow> b = magic_bytes"
  using toString_hex_inj [of b magic_bytes] toString_hex_magic by auto

lemma header_prefix:
  "Buffer_slice (take 12 bs @ replicate (12 - length bs) 0) 0 8 = magic_bytes \<longleftrightarrow> take 8 bs = magic_bytes"
proof (cases "8 \<le> length bs")
  case True
  then show ?thesis by (simp add: Buffer_slice_def min_def)
next
  case False
  then have short: "length bs < 8" by simp
  then have "Buffer_slice (take 12 bs @ replicate (12 - length bs) 0) 0 8 = bs @ replicate (8 - length bs) 0"
    by (simp add: Buffer_slice_def min_def)
  moreover have "(bs @ replicate (8 - length bs) (0::byte)) ! 7 = 0"
    using short by (simp add: nth_append)
  moreover have "magic_bytes ! 7 \<noteq> 0" by (simp add: magic_bytes_def)
  moreover have "length (take 8 bs) \<noteq> length magic_bytes" using short by (simp add: magic_bytes_def)
  ultimately show ?thesis by metis
qed

text \<open>
  Claim C5. On a readable file \<open>isHermesBytecodeBundleAsync\<close> returns true exactly
  when the first 8 bytes of the file are the magic constant. A file shorter than 8
  bytes gives false, not a failure: its header is padded with zero bytes, and the
  last byte of the magic constant is not zero.
\<close>

theorem isHermesBytecodeBundleAsync_magic:
  assumes "readable env s file bs"
  shows "isHermesBytecodeBundleAsync env s file = Inr (take 8 bs = magic_bytes)
       \<and> (length bs < 8 \<longrightarrow> isHermesBytecodeBundleAsync env s file = Inr False)"
proof -
  have main: "isHermesBytecodeBundleAsync env s file = Inr (take 8 bs = magic_bytes)"
    by (simp add: isHermesBytecodeBundleAsync_def readHermesHeaderAsync_readable [OF assms]
        magic_test header_prefix)
  moreover have "length bs < 8 \<Longrightarrow> take 8 bs \<noteq> magic_bytes"
  proof
    assume "length bs < 8" and "take 8 bs = magic_bytes"
    then have "length (take 8 bs) = 8" by (simp add: magic_bytes_def)
    with \<open>length bs < 8\<close> show False by simp
  qed
  ultimately show ?thesis by simp
qed

theorem isHermesBytecodeBundleAsync_magic_witness:
  "readable stub_env (one_file ''a.hbc'' (magic_bytes @ [5, 0, 0, 0, 9])) ''a.hbc'' (magic_bytes @ [5, 0, 0, 0, 9])
   \<and> isHermesBytecodeBundleAsync stub_env (one_file ''a.hbc'' (magic_bytes @ [5, 0, 0, 0, 9])) ''a.hbc'' = Inr True
   \<and> readable stub_env (one_file ''short'' [0xc6, 0x1f, 0xbc]) ''short'' [0xc6, 0x1f, 0xbc]
   \<and> isHermesBytecodeBundleAsync stub_env (one_file ''short'' [0xc6, 0x1f, 0xbc]) ''short'' = Inr False"
proof -
  have r: "readable stub_env (one_file ''a.hbc'' (magic_bytes @ [5, 0, 0, 0, 9])) ''a.hbc'' (magic_bytes @ [5, 0, 0, 0, 9])"
    by (simp add: readable_def one_file_def stub_env_def)
  have r': "readable stub_env (one_file ''short'' [0xc6, 0x1f, 0xbc]) ''short'' [0xc6, 0x1f, 0xbc]"
    by (simp add: readable_def one_file_def stub_env_def)
  show ?thesis
    using r r' isHermesBytecodeBundleAsync_magic [OF r] isHermesBytecodeBundleAsync_magic [OF r']
    by (simp add: magic_bytes_def)
qed

subsection \<open>The version\<close>

lemma readUInt32LE_header:
  assumes "12 \<le> length bs"
  shows "readUInt32LE (take 12 bs @ replicate (12 - length bs) 0) 8 =
     Inr (unat (bs ! 8) + unat (bs ! 9) * 2 ^ 8 + unat (bs ! 10) * 2 ^ 16 + unat (bs ! 11) * 2 ^ 24)"
  using assms by (simp add: readUInt32LE_def nth_append)

lemma getHermesBytecodeBundleVersionAsync_readable:
  assumes "readable env s file bs"
  shows "getHermesBytecodeBundleVersionAsync env s file =
     (if take 8 bs = magic_bytes
      then readUInt32LE (take 12 bs @ replicate (12 - length bs) 0) 8
      else Inl (Error ''Invalid hermes bundle file''))"
  by (simp add: getHermesBytecodeBundleVersionAsync_def readHermesHeaderAsync_readable [OF assms]
      magic_test header_prefix)

text \<open>
  Claim C6. On a readable file that starts with the 12 bytes
  \<open>c6 1f bc 03 c1 03 19 1f 05 00 00 00\<close>, \<open>getHermesBytecodeBundleVersionAsync\<close>
  returns 5; on any readable file of 12 bytes or more that starts with the magic
  constant it returns bytes 8 to 11, least significant first; and when the first 8
  bytes are not the magic constant it fails with the error
  \<open>Invalid hermes bundle file\<close>.
\<close>

theorem getHermesBytecodeBundleVersionAsync_version:
  assumes "readable env s file bs"
  shows "(take 12 bs = magic_bytes @ [5, 0, 0, 0] \<longrightarrow>
            getHermesBytecodeBundleVersionAsync env s file = Inr 5)
       \<and> (take 8 bs = magic_bytes \<and> 12 \<le> length bs \<longrightarrow>
            getHermesBytecodeBundleVersionAsync env s file =
              Inr (unat (bs ! 8) + unat (bs ! 9) * 2 ^ 8
                   + unat (bs ! 10) * 2 ^ 16 + unat (bs ! 11) * 2 ^ 24))
       \<and> (take 8 bs \<noteq> magic_bytes \<longrightarrow>
            getHermesBytecodeBundleVersionAsync env s file = Inl (Error ''Invalid hermes bundle file''))"
proof -
  note eq = getHermesBytecodeBundleVersionAsync_readable [OF assms]
  have general: "getHermesBytecodeBundleVersionAsync env s file =
              Inr (unat (bs ! 8) + unat (bs ! 9) * 2 ^ 8
                   + unat (bs ! 10) * 2 ^ 16 + unat (bs ! 11) * 2 ^ 24)"
    if m: "take 8 bs = magic_bytes" and len: "12 \<le> length bs"
  proof -
    have "getHermesBytecodeBundleVersionAsync env s file
        = readUInt32LE (take 12 bs @ replicate (12 - length bs) 0) 8"
      using eq m by simp
    then show ?thesis by (simp only: readUInt32LE_header [OF len])
  qed
  have five: "getHermesBytecodeBundleVersionAsync env s file = Inr 5"
    if t: "take 12 bs = magic_bytes @ [5, 0, 0, 0]"
  proof -
    have "length (take 12 bs) = 12" using t by (simp add: magic_bytes_def)
    then have len: "12 \<le> length bs" by simp
    have "take 8 (take 12 bs) = magic_bytes" using t by (simp add: magic_bytes_def)
    then have m: "take 8 bs = magic_bytes" by simp
    have "\<forall>i<12. bs ! i = (magic_bytes @ [5, 0, 0, 0]) ! i"
      using t by (metis nth_take)
    then have "bs ! 8 = 5" "bs ! 9 = 0" "bs ! 10 = 0" "bs ! 11 = 0"
      by (simp_all add: magic_bytes_def)
    then show ?thesis using general [OF m len] by simp
  qed
  have bad: "getHermesBytecodeBundleVersionAsync env s file = Inl (Error ''Invalid hermes bundle file'')"
    if "take 8 bs \<noteq> magic_bytes"
    using eq that by simp
  show ?thesis using general five bad by blast
qed

theorem getHermesBytecodeBundleVersionAsync_version_witness:
  "readable stub_env (one_file ''a.hbc'' (magic_bytes @ [5, 0, 0, 0])) ''a.hbc'' (magic_bytes @ [5, 0, 0, 0])
   \<and> getHermesBytecodeBundleVersionAsync stub_env (one_file ''a.hbc'' (magic_bytes @ [5, 0, 0, 0])) ''a.hbc'' = Inr 5
   \<and> readable stub_env (one_file ''b.hbc'' (0xc7 # tl magic_bytes @ [5, 0, 0, 0])) ''b.hbc'' (0xc7 # tl magic_bytes @ [5, 0, 0, 0])
   \<and> getHermesBytecodeBundleVersionAsync stub_env (one_file ''b.hbc'' (0xc7 # tl magic_bytes @ [5, 0, 0, 0])) ''b.hbc''
       = Inl (Error ''Invalid hermes bundle file'')"
proof -
  have r1: "readable stub_env (one_file ''a.hbc'' (magic_bytes @ [5, 0, 0, 0])) ''a.hbc'' (magic_bytes @ [5, 0, 0, 0])"
    by (simp add: readable_def one_file_def stub_env_def)
  have r2: "readable stub_env (one_file ''b.hbc'' (0xc7 # tl magic_bytes @ [5, 0, 0, 0])) ''b.hbc'' (0xc7 # tl magic_bytes @ [5, 0, 0, 0])"
    by (simp add: readable_def one_file_def stub_env_def)
  show ?thesis
    using r1 r2 getHermesBytecodeBundleVersionAsync_version [OF r1]
      getHermesBytecodeBundleVersionAsync_version [OF r2]
    by (simp add: magic_bytes_def)
qed

subsection \<open>Short files\<close>

text \<open>
  Claim C7, as the source has it. \<open>readHermesHeaderAsync\<close> returns a header
  exactly when the file is readable, whatever its length: 12 bytes, the first
  bytes of the file followed by zero bytes when the file has fewer than 12.
\<close>

theorem readHermesHeaderAsync_pads:
  "(readable env s file bs \<longrightarrow>
      readHermesHeaderAsync env s file = Inr (take 12 bs @ replicate (12 - length bs) 0))
   \<and> ((\<exists>header. readHermesHeaderAsync env s file = Inr header) \<longleftrightarrow> (\<exists>bs'. readable env s file bs'))"
proof (intro conjI impI iffI)
  assume "readable env s file bs"
  then show "readHermesHeaderAsync env s file = Inr (take 12 bs @ replicate (12 - length bs) 0)"
    by (rule readHermesHeaderAsync_readable)
next
  assume "\<exists>header. readHermesHeaderAsync env s file = Inr header"
  then obtain header where ok: "readHermesHeaderAsync env s file = Inr header" ..
  from ok have o: "\<not> deny env (Open file)" and n: "nodes s file \<noteq> None"
    by (auto simp: readHermesHeaderAsync_def fs_open_def split: if_splits)
  from ok o n have r: "\<not> deny env (Read file)" and f: "\<exists>bs'. nodes s file = Some (File bs')"
    by (auto simp: readHermesHeaderAsync_def fs_open_def fs_read_def Buffer_alloc_def
        split: if_splits option.splits node.splits sum.splits)
  from ok o n r f have c: "\<not> deny env (Close file)"
    by (auto simp: readHermesHeaderAsync_def fs_open_def fs_read_def fs_close_def Buffer_alloc_def
        split: if_splits)
  from o r c f show "\<exists>bs'. readable env s file bs'"
    by (auto simp: readable_def)
next
  assume "\<exists>bs'. readable env s file bs'"
  then obtain bs' where "readable env s file bs'" ..
  then show "\<exists>header. readHermesHeaderAsync env s file = Inr header"
    by (simp add: readHermesHeaderAsync_readable)
qed

theorem readHermesHeaderAsync_pads_witness:
  "readable stub_env (one_file ''short'' [0xc6, 0x1f]) ''short'' [0xc6, 0x1f]
   \<and> readHermesHeaderAsync stub_env (one_file ''short'' [0xc6, 0x1f]) ''short''
       = Inr [0xc6, 0x1f, 0, 0, 0, 0, 0, 0, 0, 0, 0, 0]"
proof -
  have r: "readable stub_env (one_file ''short'' [0xc6, 0x1f]) ''short'' [0xc6, 0x1f]"
    by (simp add: readable_def one_file_def stub_env_def)
  show ?thesis
    using r readHermesHeaderAsync_pads [of stub_env "one_file ''short'' [0xc6, 0x1f]" "''short''" "[0xc6, 0x1f]"]
    by (simp add: numeral_eq_Suc)
qed

text \<open>
  Claim C7 as it is worded has the function fail on a file shorter than 12 bytes.
  On a readable file of 3 bytes it returns a header.
\<close>

theorem readHermesHeaderAsync_short_file:
  "length [1, 2, 3 :: byte] < 12
   \<and> readHermesHeaderAsync stub_env (one_file ''short'' [1, 2, 3]) ''short''
       = Inr [1, 2, 3, 0, 0, 0, 0, 0, 0, 0, 0, 0]"
  by (simp add: readHermesHeaderAsync_def fs_open_def fs_read_def fs_close_def
      Buffer_alloc_def one_file_def stub_env_def numeral_eq_Suc)

section \<open>Properties of the build\<close>

subsection \<open>What each call adds to the calls\<close>

lemma calls_ensureDir: "calls (snd (fs_ensureDir env d s)) = calls s @ [FsCall (EnsureDir d)]"
  by (simp add: fs_ensureDir_def logged_def Let_def split: option.splits node.splits)

lemma calls_writeFile: "calls (snd (fs_writeFile env p t s)) = calls s @ [FsCall (WriteFile p)]"
  by (simp add: fs_writeFile_def logged_def Let_def)

lemma calls_readFile: "calls (snd (fs_readFile env p s)) = calls s @ [FsCall (ReadFile p)]"
  by (simp add: fs_readFile_def logged_def Let_def split: option.splits node.splits)

lemma snd_fs_readJSON: "snd (fs_readJSON env p s) = snd (fs_readFile env p s)"
proof (cases "fs_readFile env p s")
  case (Pair r s1)
  then show ?thesis by (cases r) (simp_all add: fs_readJSON_def)
qed

lemma calls_readJSON: "calls (snd (fs_readJSON env p s)) = calls s @ [FsCall (ReadFile p)]"
  by (simp add: snd_fs_readJSON calls_readFile)

lemma calls_remove: "calls (snd (fs_remove env d s)) = calls s @ [FsCall (Remove d)]"
  by (simp add: fs_remove_def logged_def Let_def)

lemma calls_spawnAsync: "calls (snd (spawnAsync env cmd args s)) = calls s @ [SpawnCall cmd args]"
  by (simp add: spawnAsync_def logged_def Let_def split: prod.splits)

lemma events_of_append: "calls s' = calls s @ evs \<Longrightarrow> events_of proj s' = events_of proj s @ concat (map proj evs)"
  by (simp add: events_of_def)

subsection \<open>Sequencing\<close>

lemma and_then_post:
  assumes m: "obs (snd (m s)) = obs s"
    and f: "\<And>x s1. m s = (Inr x, s1) \<Longrightarrow> obs s1 = obs s \<Longrightarrow> Q (f x s1)"
    and fail: "\<And>e s1. obs s1 = obs s \<Longrightarrow> Q (Inl e, s1)"
  shows "Q (and_then m f s)"
proof (cases "m s")
  case (Pair r s1)
  then have o: "obs s1 = obs s" using m by simp
  show ?thesis
  proof (cases r)
    case (Inl e)
    then show ?thesis using Pair fail [OF o] by (simp add: and_then_def)
  next
    case (Inr x)
    then show ?thesis using Pair f [OF _ o] by (simp add: and_then_def)
  qed
qed

lemma and_then_quiet:
  assumes m: "\<And>s. obs (snd (m s)) = obs s"
    and f: "\<And>x s. obs (snd (f x s)) = obs s"
  shows "obs (snd (and_then m f s)) = obs s"
proof (cases "m s")
  case (Pair r s1)
  then have "obs s1 = obs s" using m [of s] by simp
  then show ?thesis using Pair f by (cases r) (simp_all add: and_then_def)
qed

lemma settle_quiet: "obs (snd (settle r s)) = obs s"
  by (simp add: settle_def)

lemma promise_all_quiet:
  assumes p: "\<And>s. obs (snd (p s)) = obs s"
    and q: "\<And>s. obs (snd (q s)) = obs s"
  shows "obs (snd (promise_all p q s)) = obs s"
proof -
  have "snd (promise_all p q s) = snd (q (snd (p s)))"
    by (simp add: promise_all_def split: prod.splits)
  then show ?thesis by (simp add: p q)
qed

lemma try_finally_state: "snd (try_finally body fin s) = snd (fin (snd (body s)))"
  by (simp add: try_finally_def split: prod.splits sum.splits)

lemma try_finally_result:
  "fst (try_finally body fin s) =
     (case fst (fin (snd (body s))) of Inl e \<Rightarrow> Inl e | Inr _ \<Rightarrow> fst (body s))"
  by (simp add: try_finally_def split: prod.splits sum.splits)

lemma and_then_quiet_tail:
  assumes f: "\<And>x s. obs (snd (f x s)) = obs s"
  shows "obs (snd (and_then m f s)) = obs (snd (m s))"
proof (cases "m s")
  case (Pair r s1)
  then show ?thesis using f by (cases r) (simp_all add: and_then_def)
qed

lemma createHermesSourcemapAsync_quiet:
  assumes "\<And>c. proj (FsCall c) = []"
  shows "events_of proj (snd (createHermesSourcemapAsync env root m f s)) = events_of proj s"
  unfolding createHermesSourcemapAsync_def
  by (intro and_then_quiet settle_quiet) (simp add: events_of_append [OF calls_readJSON] assms)

subsection \<open>The result and the final state of a build\<close>

lemma build_result:
  "fst (buildHermesBundleAsync env root code m opt s) =
     (case fst (fs_ensureDir env (tempDir_of env) s) of
        Inl e \<Rightarrow> Inl e
      | Inr _ \<Rightarrow>
          (case fst (fs_remove env (tempDir_of env)
                  (snd (build_body env (tempDir_of env) root code m opt
                     (snd (fs_ensureDir env (tempDir_of env) s))))) of
             Inl e \<Rightarrow> Inl e
           | Inr _ \<Rightarrow> fst (build_body env (tempDir_of env) root code m opt
                            (snd (fs_ensureDir env (tempDir_of env) s)))))"
proof (cases "fs_ensureDir env (tempDir_of env) s")
  case (Pair r s1)
  then show ?thesis
    by (cases r) (simp_all add: buildHermesBundleAsync_def Let_def and_then_def try_finally_result
        split: sum.splits)
qed

lemma build_state:
  "snd (buildHermesBundleAsync env root code m opt s) =
     (case fst (fs_ensureDir env (tempDir_of env) s) of
        Inl e \<Rightarrow> snd (fs_ensureDir env (tempDir_of env) s)
      | Inr _ \<Rightarrow>
          snd (fs_remove env (tempDir_of env)
                  (snd (build_body env (tempDir_of env) root code m opt
                     (snd (fs_ensureDir env (tempDir_of env) s))))))"
proof (cases "fs_ensureDir env (tempDir_of env) s")
  case (Pair r s1)
  then show ?thesis
    by (cases r) (simp_all add: buildHermesBundleAsync_def Let_def and_then_def try_finally_state)
qed

subsection \<open>Runs in the test environment\<close>

lemmas run_defs =
  build_body_def createHermesSourcemapAsync_def Let_def and_then_def try_finally_def
  promise_all_def settle_def fs_ensureDir_def fs_writeFile_def fs_readFile_def fs_readJSON_def fs_remove_def
  spawnAsync_def logged_def getHermesCommand_def getHermesCommandPlatform_def
  importMetroSourceMapFromProject_def hermes_args_def path_join_def dirname_def is_under_def

lemmas stub_defs =
  stub_env_def failing_env_def denying_env_def empty_fs_def one_file_def
  stub_hermesc_def stub_encode_def stub_decode_def stub_parse_def stub_compose_def
  compose_pair_def stub_stringify_def string_of_nat.simps digit_char_def char_of_eq_iff

lemma stub_tempDir:
  "tempDir_of stub_env = ''/tmp/expo-bundler-4242''"
  "tempDir_of failing_env = ''/tmp/expo-bundler-4242''"
  "tempDir_of denying_env = ''/tmp/expo-bundler-4242''"
  by (simp_all add: tempDir_of_def stub_defs path_join_def)

lemma stub_build_ok:
  "buildHermesBundleAsync stub_env ''/proj'' ''abc'' ''BUNDLER'' True empty_fs =
     (Inr \<lparr>hbc = [97, 98, 99], sourcemap = ''10>a.js:1;''\<rparr>,
      \<lparr>nodes = Map.empty,
       calls = [FsCall (EnsureDir ''/tmp/expo-bundler-4242''),
              FsCall (WriteFile ''/tmp/expo-bundler-4242/index.bundle''),
              FsCall (WriteFile ''/tmp/expo-bundler-4242/index.bundle.map''),
              SpawnCall ''/proj/node_modules/hermes-engine/linux64-bin/hermesc''
                [''-emit-binary'', ''-out'', ''/tmp/expo-bundler-4242/index.hbc'',
                 ''/tmp/expo-bundler-4242/index.bundle'', ''-output-source-map'', ''-O''],
              FsCall (ReadFile ''/tmp/expo-bundler-4242/index.hbc''),
              FsCall (ReadFile ''/tmp/expo-bundler-4242/index.hbc.map''),
              FsCall (Remove ''/tmp/expo-bundler-4242'')]\<rparr>)"
  by (simp add: buildHermesBundleAsync_def stub_tempDir)
     (simp add: run_defs stub_defs fun_eq_iff)

lemma stub_build_bad_map:
  "buildHermesBundleAsync stub_env ''/proj'' ''abc'' ''garbage'' False empty_fs =
     (Inl SyntaxError,
      \<lparr>nodes = Map.empty,
       calls = [FsCall (EnsureDir ''/tmp/expo-bundler-4242''),
              FsCall (WriteFile ''/tmp/expo-bundler-4242/index.bundle''),
              FsCall (WriteFile ''/tmp/expo-bundler-4242/index.bundle.map''),
              SpawnCall ''/proj/node_modules/hermes-engine/linux64-bin/hermesc''
                [''-emit-binary'', ''-out'', ''/tmp/expo-bundler-4242/index.hbc'',
                 ''/tmp/expo-bundler-4242/index.bundle'', ''-output-source-map''],
              FsCall (ReadFile ''/tmp/expo-bundler-4242/index.hbc''),
              FsCall (Remove ''/tmp/expo-bundler-4242'')]\<rparr>)"
  by (simp add: buildHermesBundleAsync_def stub_tempDir)
     (simp add: run_defs stub_defs fun_eq_iff)

lemma failing_build:
  "buildHermesBundleAsync failing_env ''/proj'' ''abc'' ''BUNDLER'' False empty_fs =
     (Inl (SpawnError (Exited 1)),
      \<lparr>nodes = Map.empty,
       calls = [FsCall (EnsureDir ''/tmp/expo-bundler-4242''),
              FsCall (WriteFile ''/tmp/expo-bundler-4242/index.bundle''),
              FsCall (WriteFile ''/tmp/expo-bundler-4242/index.bundle.map''),
              SpawnCall ''/proj/node_modules/hermes-engine/linux64-bin/hermesc''
                [''-emit-binary'', ''-out'', ''/tmp/expo-bundler-4242/index.hbc'',
                 ''/tmp/expo-bundler-4242/index.bundle'', ''-output-source-map''],
              FsCall (Remove ''/tmp/expo-bundler-4242'')]\<rparr>)"
  by (simp add: buildHermesBundleAsync_def stub_tempDir)
     (simp add: run_defs stub_defs fun_eq_iff)

lemma stub_acquires:
  "fst (fs_ensureDir stub_env ''/tmp/expo-bundler-4242'' empty_fs) = Inr ()"
  "fst (fs_ensureDir failing_env ''/tmp/expo-bundler-4242'' empty_fs) = Inr ()"
  "fst (fs_ensureDir denying_env ''/tmp/expo-bundler-4242'' empty_fs) = Inr ()"
  by (simp_all add: run_defs stub_defs)

lemma failing_body:
  "fst (build_body failing_env ''/tmp/expo-bundler-4242'' ''/proj'' ''abc'' ''BUNDLER'' False
          (snd (fs_ensureDir failing_env ''/tmp/expo-bundler-4242'' empty_fs)))
     = Inl (SpawnError (Exited 1))"
  "fst (build_body denying_env ''/tmp/expo-bundler-4242'' ''/proj'' ''abc'' ''BUNDLER'' False
          (snd (fs_ensureDir denying_env ''/tmp/expo-bundler-4242'' empty_fs)))
     = Inl (SpawnError (Exited 1))"
  by (simp_all add: run_defs stub_defs)

lemma interleaved_builds:
  "fst (buildHermesBundleAsync stub_env ''/other'' ''xyz'' ''BUNDLER'' False
          (snd (fs_ensureDir stub_env ''/tmp/expo-bundler-4242'' empty_fs)))
     = Inr \<lparr>hbc = [120, 121, 122], sourcemap = ''10>a.js:1;''\<rparr>"
  "fst (build_body stub_env ''/tmp/expo-bundler-4242'' ''/proj'' ''abc'' ''BUNDLER'' True
          (snd (buildHermesBundleAsync stub_env ''/other'' ''xyz'' ''BUNDLER'' False
             (snd (fs_ensureDir stub_env ''/tmp/expo-bundler-4242'' empty_fs)))))
     = Inl (SystemError (WriteFile ''/tmp/expo-bundler-4242/index.bundle''))"
  by (simp_all add: buildHermesBundleAsync_def stub_tempDir)
     (simp_all add: run_defs stub_defs)

lemma denying_build:
  "fst (buildHermesBundleAsync denying_env ''/proj'' ''abc'' ''BUNDLER'' False empty_fs)
     = Inl (SystemError (Remove ''/tmp/expo-bundler-4242''))"
  by (simp add: buildHermesBundleAsync_def stub_tempDir)
     (simp add: run_defs stub_defs)

subsection \<open>The workspace is removed\<close>

text \<open>
  Claim C1. Once a build has created its workspace, the last call it makes is the
  removal of the workspace, however the body of the \<open>try\<close> block ended: with a
  result, with a failure of the compiler, of the composition of the source maps or
  of any other step. Unless the system rejects that removal, the workspace
  directory and everything below it are gone when the build returns.
\<close>

theorem workspace_removed:
  assumes acquired: "fst (fs_ensureDir env (tempDir_of env) s) = Inr ()"
  shows "last (calls (snd (buildHermesBundleAsync env projectRoot code map' optimize s)))
           = FsCall (Remove (tempDir_of env))
       \<and> (\<not> deny env (Remove (tempDir_of env)) \<longrightarrow>
            (\<forall>p. is_under (tempDir_of env) p \<longrightarrow>
               nodes (snd (buildHermesBundleAsync env projectRoot code map' optimize s)) p = None))"
proof -
  let ?d = "tempDir_of env"
  let ?t = "snd (build_body env ?d projectRoot code map' optimize (snd (fs_ensureDir env ?d s)))"
  have st: "snd (buildHermesBundleAsync env projectRoot code map' optimize s) = snd (fs_remove env ?d ?t)"
    using acquired by (simp add: build_state)
  have "last (calls (snd (fs_remove env ?d ?t))) = FsCall (Remove ?d)"
    by (simp add: calls_remove)
  moreover have "nodes (snd (fs_remove env ?d ?t)) p = None"
    if "\<not> deny env (Remove ?d)" and "is_under ?d p" for p
    using that by (simp add: fs_remove_def logged_def Let_def)
  ultimately show ?thesis unfolding st by blast
qed

theorem workspace_removed_witness:
  "fst (fs_ensureDir stub_env (tempDir_of stub_env) empty_fs) = Inr ()
   \<and> fst (buildHermesBundleAsync stub_env ''/proj'' ''abc'' ''BUNDLER'' True empty_fs)
       = Inr \<lparr>hbc = [97, 98, 99], sourcemap = ''10>a.js:1;''\<rparr>
   \<and> nodes (snd (buildHermesBundleAsync stub_env ''/proj'' ''abc'' ''BUNDLER'' True empty_fs))
       ''/tmp/expo-bundler-4242'' = None
   \<and> fst (buildHermesBundleAsync failing_env ''/proj'' ''abc'' ''BUNDLER'' False empty_fs)
       = Inl (SpawnError (Exited 1))
   \<and> nodes (snd (buildHermesBundleAsync failing_env ''/proj'' ''abc'' ''BUNDLER'' False empty_fs))
       ''/tmp/expo-bundler-4242/index.bundle'' = None
   \<and> fst (buildHermesBundleAsync stub_env ''/proj'' ''abc'' ''garbage'' False empty_fs)
       = Inl SyntaxError
   \<and> last (calls (snd (buildHermesBundleAsync stub_env ''/proj'' ''abc'' ''garbage'' False empty_fs)))
       = FsCall (Remove ''/tmp/expo-bundler-4242'')"
proof -
  have a: "fst (fs_ensureDir stub_env (tempDir_of stub_env) empty_fs) = Inr ()"
    and b: "fst (fs_ensureDir failing_env (tempDir_of failing_env) empty_fs) = Inr ()"
    by (simp_all add: stub_tempDir stub_acquires)
  have n: "\<not> deny stub_env (Remove (tempDir_of stub_env))"
    and m: "\<not> deny failing_env (Remove (tempDir_of failing_env))"
    by (simp_all add: stub_defs)
  have u: "is_under ''/tmp/expo-bundler-4242'' ''/tmp/expo-bundler-4242''"
    and v: "is_under ''/tmp/expo-bundler-4242'' ''/tmp/expo-bundler-4242/index.bundle''"
    by (simp_all add: is_under_def)
  from workspace_removed [OF a, of "''/proj''" "''abc''" "''BUNDLER''" True] n u
  have 1: "nodes (snd (buildHermesBundleAsync stub_env ''/proj'' ''abc'' ''BUNDLER'' True empty_fs))
       ''/tmp/expo-bundler-4242'' = None"
    by (simp add: stub_tempDir)
  from workspace_removed [OF b, of "''/proj''" "''abc''" "''BUNDLER''" False] m v
  have 2: "nodes (snd (buildHermesBundleAsync failing_env ''/proj'' ''abc'' ''BUNDLER'' False empty_fs))
       ''/tmp/expo-bundler-4242/index.bundle'' = None"
    by (simp add: stub_tempDir)
  from workspace_removed [OF a, of "''/proj''" "''abc''" "''garbage''" False]
  have 3: "last (calls (snd (buildHermesBundleAsync stub_env ''/proj'' ''abc'' ''garbage'' False empty_fs)))
       = FsCall (Remove ''/tmp/expo-bundler-4242'')"
    by (simp add: stub_tempDir)
  show ?thesis using a 1 2 3 by (simp add: stub_build_ok failing_build stub_build_bad_map)
qed

subsection \<open>Which error reaches the caller\<close>

text \<open>
  Claim C2, as the source has it. When the body of the build fails and the removal
  of the workspace fails too, the caller gets the error of the removal: an error
  thrown in a \<open>finally\<close> block replaces the one that was on its way. The error of
  the build reaches the caller when the removal succeeds.
\<close>

theorem removal_error_replaces_build_error:
  assumes acquired: "fst (fs_ensureDir env (tempDir_of env) s) = Inr ()"
    and failed: "fst (build_body env (tempDir_of env) projectRoot code map' optimize
                       (snd (fs_ensureDir env (tempDir_of env) s))) = Inl e"
  shows "fst (buildHermesBundleAsync env projectRoot code map' optimize s) =
           Inl (if deny env (Remove (tempDir_of env))
                then SystemError (Remove (tempDir_of env)) else e)"
  using acquired failed
  by (simp add: build_result fs_remove_def logged_def Let_def)

theorem removal_error_replaces_build_error_witness:
  "fst (fs_ensureDir denying_env (tempDir_of denying_env) empty_fs) = Inr ()
   \<and> fst (build_body denying_env (tempDir_of denying_env) ''/proj'' ''abc'' ''BUNDLER'' False
            (snd (fs_ensureDir denying_env (tempDir_of denying_env) empty_fs)))
       = Inl (SpawnError (Exited 1))
   \<and> deny denying_env (Remove (tempDir_of denying_env))
   \<and> fst (buildHermesBundleAsync denying_env ''/proj'' ''abc'' ''BUNDLER'' False empty_fs)
       = Inl (SystemError (Remove ''/tmp/expo-bundler-4242''))"
proof -
  have a: "fst (fs_ensureDir denying_env (tempDir_of denying_env) empty_fs) = Inr ()"
    by (simp add: stub_tempDir stub_acquires)
  have f: "fst (build_body denying_env (tempDir_of denying_env) ''/proj'' ''abc'' ''BUNDLER'' False
            (snd (fs_ensureDir denying_env (tempDir_of denying_env) empty_fs)))
       = Inl (SpawnError (Exited 1))"
    by (simp add: stub_tempDir failing_body)
  have d: "deny denying_env (Remove (tempDir_of denying_env))"
    by (simp add: stub_tempDir) (simp add: stub_defs)
  show ?thesis
    using a f d removal_error_replaces_build_error [OF a f]
    by (simp add: stub_tempDir)
qed

text \<open>
  Claim C2 as it is worded has the error of the build reach the caller. With a
  compiler that exits with code 1 and a removal that is rejected, the body fails
  with the compiler's error and the caller gets the error of the removal.
\<close>

theorem removal_error_masks_build_error:
  "fst (build_body denying_env ''/tmp/expo-bundler-4242'' ''/proj'' ''abc'' ''BUNDLER'' False
          (snd (fs_ensureDir denying_env ''/tmp/expo-bundler-4242'' empty_fs)))
     = Inl (SpawnError (Exited 1))
   \<and> fst (buildHermesBundleAsync denying_env ''/proj'' ''abc'' ''BUNDLER'' False empty_fs)
     = Inl (SystemError (Remove ''/tmp/expo-bundler-4242''))
   \<and> fst (buildHermesBundleAsync denying_env ''/proj'' ''abc'' ''BUNDLER'' False empty_fs)
     \<noteq> Inl (SpawnError (Exited 1))"
  by (simp add: failing_body denying_build)

subsection \<open>The arguments of the compiler\<close>

lemma build_body_spawns:
  fixes env :: "'j env" and d :: path and opt :: bool
  defines "args \<equiv> hermes_args (path_join d ''index.hbc'') (path_join d ''index.bundle'') opt"
  shows "(spawn_calls (snd (build_body env d root code m opt s)) = spawn_calls s
          \<or> (\<exists>cmd. getHermesCommand env root = Inr cmd
                \<and> spawn_calls (snd (build_body env d root code m opt s)) = spawn_calls s @ [(cmd, args)]))
       \<and> (\<forall>out. fst (build_body env d root code m opt s) = Inr out
            \<longrightarrow> spawn_calls (snd (build_body env d root code m opt s)) \<noteq> spawn_calls s)"
proof -
  let ?Q = "\<lambda>a (rs :: (error + HermesBundleOutput) \<times> fs).
      (spawn_calls (snd rs) = a
        \<or> (\<exists>cmd. getHermesCommand env root = Inr cmd \<and> spawn_calls (snd rs) = a @ [(cmd, args)]))
      \<and> (\<forall>out. fst rs = Inr out \<longrightarrow> spawn_calls (snd rs) \<noteq> a)"
  have w: "\<And>p t s. spawn_calls (snd (fs_writeFile env p t s)) = spawn_calls s"
    by (simp add: spawn_calls_def events_of_append [OF calls_writeFile])
  have r: "\<And>p s. spawn_calls (snd (fs_readFile env p s)) = spawn_calls s"
    by (simp add: spawn_calls_def events_of_append [OF calls_readFile])
  have c: "\<And>f s. spawn_calls (snd (createHermesSourcemapAsync env root m f s)) = spawn_calls s"
    unfolding spawn_calls_def by (rule createHermesSourcemapAsync_quiet) simp
  have tail: "\<And>x s. spawn_calls (snd (and_then
        (promise_all (fs_readFile env (path_join d ''index.hbc''))
           (createHermesSourcemapAsync env root m (path_join d ''index.hbc'' @ ''.map'')))
        (\<lambda>(hbc, sourcemap). settle (Inr \<lparr>hbc = hbc, sourcemap = sourcemap\<rparr>)) s)) = spawn_calls s"
    by (intro and_then_quiet promise_all_quiet r c) (simp add: settle_def split: prod.splits)
  have spawn: "\<And>cmd s. spawn_calls (snd (and_then (spawnAsync env cmd args)
        (\<lambda>_. and_then
        (promise_all (fs_readFile env (path_join d ''index.hbc''))
           (createHermesSourcemapAsync env root m (path_join d ''index.hbc'' @ ''.map'')))
        (\<lambda>(hbc, sourcemap). settle (Inr \<lparr>hbc = hbc, sourcemap = sourcemap\<rparr>))) s))
      = spawn_calls s @ [(cmd, args)]"
    by (subst and_then_quiet_tail [where obs = spawn_calls and m = "spawnAsync env _ _", OF tail])
       (simp add: spawn_calls_def events_of_append [OF calls_spawnAsync])
  have "?Q (spawn_calls s) (build_body env d root code m opt s)"
    unfolding build_body_def Let_def args_def [symmetric]
  proof (rule and_then_post [where obs = spawn_calls], goal_cases)
    case 1 show ?case by (rule w)
  next
    case (2 x s1)
    show ?case
    proof (rule and_then_post [where obs = spawn_calls], goal_cases)
      case 1 show ?case by (rule w)
    next
      case (2 y s2)
      show ?case
      proof (rule and_then_post [where obs = spawn_calls], goal_cases)
        case 1 show ?case by (simp add: settle_def)
      next
        case (3 e s3)
        then show ?case using 2 \<open>spawn_calls s1 = spawn_calls s\<close> by simp
      next
        case (2 cmd s3)
        then have "getHermesCommand env root = Inr cmd" by (simp add: settle_def)
        then show ?case using 2 spawn [of cmd s3] \<open>spawn_calls s2 = spawn_calls s1\<close> \<open>spawn_calls s1 = spawn_calls s\<close>
          by simp
      qed
    next
      case (3 e s2)
      then show ?case using 2 by simp
    qed
  next
    case (3 e s1)
    then show ?case by simp
  qed
  then show ?thesis by simp
qed

lemma hermes_args_eq:
  "hermes_args hbcFile bundleFile optimize =
     [''-emit-binary'', ''-out'', hbcFile, bundleFile, ''-output-source-map'']
       @ (if optimize then [''-O''] else [])"
  by (simp add: hermes_args_def)

lemma path_join_not_flag: "path_join d ''index.hbc'' \<noteq> ''-O''" "path_join d ''index.bundle'' \<noteq> ''-O''"
proof -
  have "length (path_join d ''index.hbc'') \<noteq> length ''-O''" by (simp add: path_join_def)
  then show "path_join d ''index.hbc'' \<noteq> ''-O''" by metis
  have "length (path_join d ''index.bundle'') \<noteq> length ''-O''" by (simp add: path_join_def)
  then show "path_join d ''index.bundle'' \<noteq> ''-O''" by metis
qed

text \<open>
  Claim C3. A build invokes the compiler at most once, and exactly once when it
  succeeds. The arguments are \<open>-emit-binary\<close>, \<open>-out\<close>, the bytecode path, the
  bundle path and \<open>-output-source-map\<close>, in this order, followed by \<open>-O\<close> when
  \<open>optimize\<close> is true and by nothing when it is false; the list holds \<open>-O\<close> once
  in the first case and not at all in the second.
\<close>

theorem hermesc_arguments:
  fixes env :: "'j env"
  shows "(let s' = snd (buildHermesBundleAsync env projectRoot code map' optimize s);
           args = [''-emit-binary'', ''-out'', path_join (tempDir_of env) ''index.hbc'',
                   path_join (tempDir_of env) ''index.bundle'', ''-output-source-map'']
                  @ (if optimize then [''-O''] else [])
       in (spawn_calls s' = spawn_calls s
            \<or> (\<exists>cmd. getHermesCommand env projectRoot = Inr cmd
                  \<and> spawn_calls s' = spawn_calls s @ [(cmd, args)]))
          \<and> (\<forall>out. fst (buildHermesBundleAsync env projectRoot code map' optimize s) = Inr out
                \<longrightarrow> spawn_calls s' \<noteq> spawn_calls s)
          \<and> count_list args ''-O'' = (if optimize then 1 else 0))"
proof -
  let ?d = "tempDir_of env"
  let ?s1 = "snd (fs_ensureDir env ?d s)"
  let ?body = "build_body env ?d projectRoot code map' optimize ?s1"
  let ?B = "buildHermesBundleAsync env projectRoot code map' optimize s"
  have e: "spawn_calls ?s1 = spawn_calls s"
    by (simp add: spawn_calls_def events_of_append [OF calls_ensureDir])
  have rm: "\<And>t. spawn_calls (snd (fs_remove env ?d t)) = spawn_calls t"
    by (simp add: spawn_calls_def events_of_append [OF calls_remove])
  note body = build_body_spawns [of env ?d projectRoot code map' optimize ?s1, unfolded hermes_args_eq e]
  have count: "count_list ([''-emit-binary'', ''-out'', path_join ?d ''index.hbc'',
                   path_join ?d ''index.bundle'', ''-output-source-map'']
                  @ (if optimize then [''-O''] else [])) ''-O'' = (if optimize then 1 else 0)"
    using path_join_not_flag [of ?d] by simp
  show ?thesis
  proof (cases "fst (fs_ensureDir env ?d s)")
    case (Inl err)
    then have "snd ?B = ?s1" and "fst ?B = Inl err"
      by (simp_all add: build_state build_result)
    then show ?thesis using e count by (simp add: Let_def)
  next
    case (Inr u)
    then have st: "spawn_calls (snd ?B) = spawn_calls (snd ?body)"
      by (simp add: build_state rm)
    have res: "fst ?body = Inr out" if "fst ?B = Inr out" for out
      using that Inr by (simp add: build_result split: sum.splits)
    show ?thesis
      unfolding Let_def st using body res count by blast
  qed
qed

theorem hermesc_arguments_witness:
  "fst (buildHermesBundleAsync stub_env ''/proj'' ''abc'' ''BUNDLER'' True empty_fs)
     = Inr \<lparr>hbc = [97, 98, 99], sourcemap = ''10>a.js:1;''\<rparr>
   \<and> spawn_calls (snd (buildHermesBundleAsync stub_env ''/proj'' ''abc'' ''BUNDLER'' True empty_fs))
     = [(''/proj/node_modules/hermes-engine/linux64-bin/hermesc'',
         [''-emit-binary'', ''-out'', ''/tmp/expo-bundler-4242/index.hbc'',
          ''/tmp/expo-bundler-4242/index.bundle'', ''-output-source-map'', ''-O''])]
   \<and> spawn_calls (snd (buildHermesBundleAsync failing_env ''/proj'' ''abc'' ''BUNDLER'' False empty_fs))
     = [(''/proj/node_modules/hermes-engine/linux64-bin/hermesc'',
         [''-emit-binary'', ''-out'', ''/tmp/expo-bundler-4242/index.hbc'',
          ''/tmp/expo-bundler-4242/index.bundle'', ''-output-source-map''])]"
  using hermesc_arguments [of stub_env "''/proj''" "''abc''" "''BUNDLER''" True empty_fs]
    hermesc_arguments [of failing_env "''/proj''" "''abc''" "''BUNDLER''" False empty_fs]
  by (simp add: stub_build_ok failing_build spawn_calls_def events_of_def)

subsection \<open>The order of the two maps\<close>

text \<open>
  Claim C4. When the composition function resolves, the bundler's map parses and
  the compiler's map file is read and parses, \<open>createHermesSourcemapAsync\<close> calls
  the composition function on the list of the bundler's map followed by the
  compiler's map, and returns the result as text (or the error the function
  raised). In the test environment, with the composition of section 3 of the
  specification, the compiler's map sends bytecode offset 10 to bundle line 3, the
  bundler's map sends bundle line 3 to line 1 of \<open>a.js\<close>, and the result sends
  offset 10 to line 1 of \<open>a.js\<close>.
\<close>

theorem createHermesSourcemapAsync_order:
  assumes "importMetroSourceMapFromProject env projectRoot = Inr composeSourceMaps"
    and "JSON_parse env sourcemap' = Inr bundlerSourcemap"
    and "nodes s hermesMapFile = Some (File bs)"
    and "\<not> deny env (ReadFile hermesMapFile)"
    and "JSON_parse env (utf8_decode env bs) = Inr hermesSourcemap"
  shows "fst (createHermesSourcemapAsync env projectRoot sourcemap' hermesMapFile s) =
           (case composeSourceMaps [bundlerSourcemap, hermesSourcemap] of
              Inl e \<Rightarrow> Inl e
            | Inr composed \<Rightarrow> Inr (JSON_stringify env composed))"
  using assms
  by (simp add: createHermesSourcemapAsync_def and_then_def settle_def fs_readJSON_def fs_readFile_def
      logged_def Let_def split: sum.splits)

theorem createHermesSourcemapAsync_order_witness:
  "importMetroSourceMapFromProject stub_env ''/proj'' = Inr stub_compose
   \<and> JSON_parse stub_env ''BUNDLER'' = Inr [(3, ''a.js'', 1)]
   \<and> JSON_parse stub_env (utf8_decode stub_env (stub_encode ''COMPILER'')) = Inr [(10, ''index.bundle'', 3)]
   \<and> stub_compose [[(3, ''a.js'', 1)], [(10, ''index.bundle'', 3)]] = Inr [(10, ''a.js'', 1)]
   \<and> fst (createHermesSourcemapAsync stub_env ''/proj'' ''BUNDLER'' ''/w/index.hbc.map''
            (one_file ''/w/index.hbc.map'' (stub_encode ''COMPILER'')))
       = Inr ''10>a.js:1;''"
proof -
  have 1: "importMetroSourceMapFromProject stub_env ''/proj'' = Inr stub_compose"
    by (simp add: importMetroSourceMapFromProject_def stub_env_def)
  have 2: "JSON_parse stub_env ''BUNDLER'' = Inr [(3, ''a.js'', 1)]"
    by (simp add: stub_defs)
  have 3: "nodes (one_file ''/w/index.hbc.map'' (stub_encode ''COMPILER'')) ''/w/index.hbc.map''
      = Some (File (stub_encode ''COMPILER''))"
    by (simp add: one_file_def)
  have 4: "\<not> deny stub_env (ReadFile ''/w/index.hbc.map'')"
    by (simp add: stub_defs)
  have 5: "JSON_parse stub_env (utf8_decode stub_env (stub_encode ''COMPILER'')) = Inr [(10, ''index.bundle'', 3)]"
    by (simp add: stub_defs)
  have 6: "stub_compose [[(3, ''a.js'', 1)], [(10, ''index.bundle'', 3)]] = Inr [(10, ''a.js'', 1)]"
    by (simp add: stub_compose_def compose_pair_def)
  have 7: "JSON_stringify stub_env [(10, ''a.js'', 1)] = ''10>a.js:1;''"
    by (simp add: stub_defs)
  show ?thesis
    using 1 2 5 6 7 createHermesSourcemapAsync_order [OF 1 2 3 4 5]
    by simp
qed

subsection \<open>The identity of the workspace\<close>

lemma digit_char_inj:
  assumes "a < 10" "b < 10" "digit_char a = digit_char b"
  shows "a = b"
proof -
  have d: "distinct ''0123456789''" by simp
  show ?thesis using assms nth_eq_iff_index_eq [OF d, of a b] by (simp add: digit_char_def)
qed

lemma string_of_nat_nonempty: "string_of_nat n \<noteq> []"
  by (subst string_of_nat.simps) simp

lemma string_of_nat_inj: "string_of_nat n = string_of_nat m \<Longrightarrow> n = m"
proof (induction n arbitrary: m rule: string_of_nat.induct)
  case (1 n)
  show ?case
  proof (cases "n < 10")
    case small_n: True
    show ?thesis
    proof (cases "m < 10")
      case True
      with small_n "1.prems" show ?thesis
        by (simp add: string_of_nat.simps [of n] string_of_nat.simps [of m] digit_char_inj)
    next
      case False
      with small_n "1.prems" string_of_nat_nonempty [of "m div 10"] show ?thesis
        by (simp add: string_of_nat.simps [of n] string_of_nat.simps [of m] Cons_eq_append_conv)
    qed
  next
    case big_n: False
    show ?thesis
    proof (cases "m < 10")
      case True
      with big_n "1.prems" string_of_nat_nonempty [of "n div 10"] show ?thesis
        by (simp add: string_of_nat.simps [of n] string_of_nat.simps [of m] append_eq_Cons_conv)
    next
      case False
      with big_n "1.prems" have
        pre: "string_of_nat (n div 10) = string_of_nat (m div 10)" and
        dig: "digit_char (n mod 10) = digit_char (m mod 10)"
        by (simp_all add: string_of_nat.simps [of n] string_of_nat.simps [of m])
      have "n div 10 = m div 10" using "1.IH" [OF big_n pre] .
      moreover have "n mod 10 = m mod 10" using dig by (intro digit_char_inj) simp_all
      ultimately show ?thesis by (metis div_mult_mod_eq)
    qed
  qed
qed

lemma digit_char_no_slash: "d < 10 \<Longrightarrow> digit_char d \<noteq> CHR ''/''"
proof -
  assume "d < 10"
  then have "digit_char d \<in> set ''0123456789''"
    unfolding digit_char_def by (intro nth_mem) simp
  then show ?thesis by auto
qed

lemma string_of_nat_no_slash: "CHR ''/'' \<notin> set (string_of_nat n)"
proof (induction n rule: string_of_nat.induct)
  case (1 n)
  show ?case
  proof (cases "n < 10")
    case True
    then show ?thesis using digit_char_no_slash [of n]
      by (auto simp add: string_of_nat.simps [of n])
  next
    case False
    then show ?thesis using "1.IH" digit_char_no_slash [of "n mod 10"]
      by (auto simp add: string_of_nat.simps [of n])
  qed
qed

lemma path_join_name:
  assumes "CHR ''/'' \<notin> set x"
  shows "rev (takeWhile (\<lambda>c. c \<noteq> CHR ''/'') (rev (path_join a x))) = x"
proof -
  have "rev (path_join a x) = rev x @ CHR ''/'' # rev a" by (simp add: path_join_def)
  moreover have "takeWhile (\<lambda>c. c \<noteq> CHR ''/'') (rev x @ CHR ''/'' # rev a) = rev x"
    using assms by (auto simp add: takeWhile_tail)
  ultimately show ?thesis by simp
qed

lemma tempDir_of_inj:
  fixes e1 :: "'j env" and e2 :: "'k env"
  assumes "tempDir_of e1 = tempDir_of e2"
  shows "pid e1 = pid e2"
proof -
  let ?n1 = "''expo-bundler-'' @ string_of_nat (pid e1)"
  let ?n2 = "''expo-bundler-'' @ string_of_nat (pid e2)"
  have s1: "CHR ''/'' \<notin> set ?n1" and s2: "CHR ''/'' \<notin> set ?n2"
    using string_of_nat_no_slash by simp_all
  have "rev (takeWhile (\<lambda>c. c \<noteq> CHR ''/'') (rev (tempDir_of e1))) = ?n1"
    unfolding tempDir_of_def by (rule path_join_name [OF s1])
  moreover have "rev (takeWhile (\<lambda>c. c \<noteq> CHR ''/'') (rev (tempDir_of e2))) = ?n2"
    unfolding tempDir_of_def by (rule path_join_name [OF s2])
  ultimately have "?n1 = ?n2" using assms by simp
  then show ?thesis using string_of_nat_inj by simp
qed

lemma build_body_workspaces:
  "workspaces (snd (build_body env d root code m opt s)) = workspaces s"
proof -
  have w: "\<And>p t s. workspaces (snd (fs_writeFile env p t s)) = workspaces s"
    by (simp add: workspaces_def events_of_append [OF calls_writeFile])
  have r: "\<And>p s. workspaces (snd (fs_readFile env p s)) = workspaces s"
    by (simp add: workspaces_def events_of_append [OF calls_readFile])
  have sp: "\<And>c a s. workspaces (snd (spawnAsync env c a s)) = workspaces s"
    by (simp add: workspaces_def events_of_append [OF calls_spawnAsync])
  have c: "\<And>f s. workspaces (snd (createHermesSourcemapAsync env root m f s)) = workspaces s"
    unfolding workspaces_def
    by (simp add: createHermesSourcemapAsync_def and_then_quiet settle_quiet
        events_of_append [OF calls_readJSON])
  show ?thesis
    unfolding build_body_def Let_def
    by (intro and_then_quiet promise_all_quiet settle_quiet w r sp c)
       (simp add: settle_def split: prod.splits)
qed

lemma build_workspaces:
  "workspaces (snd (buildHermesBundleAsync env root code m opt s)) = workspaces s @ [tempDir_of env]"
proof -
  have e: "workspaces (snd (fs_ensureDir env (tempDir_of env) s)) = workspaces s @ [tempDir_of env]"
    by (simp add: workspaces_def events_of_append [OF calls_ensureDir])
  have rm: "\<And>t. workspaces (snd (fs_remove env (tempDir_of env) t)) = workspaces t"
    by (simp add: workspaces_def events_of_append [OF calls_remove])
  show ?thesis
    by (cases "fst (fs_ensureDir env (tempDir_of env) s)")
       (simp_all add: build_state rm build_body_workspaces e)
qed

text \<open>
  Claim C9, as the source has it. A build acquires one workspace, the directory
  \<open>expo-bundler-\<close> followed by the process id, in the temporary directory of the
  system. The path does not depend on the request. Two builds that run in
  processes with different ids acquire different workspaces.
\<close>

theorem workspace_per_process:
  fixes e1 :: "'j env" and e2 :: "'k env"
  shows "workspaces (snd (buildHermesBundleAsync e1 projectRoot code map' optimize s))
           = workspaces s @ [path_join (tmpdir e1) (''expo-bundler-'' @ string_of_nat (pid e1))]
       \<and> (pid e1 \<noteq> pid e2 \<longrightarrow> tempDir_of e1 \<noteq> tempDir_of e2)"
  using build_workspaces [of e1] tempDir_of_inj [of e1 e2]
  by (auto simp: tempDir_of_def)

theorem workspace_per_process_witness:
  "pid stub_env \<noteq> pid (stub_env\<lparr>pid := 4243\<rparr>)
   \<and> workspaces (snd (buildHermesBundleAsync stub_env ''/proj'' ''abc'' ''BUNDLER'' True empty_fs))
       = [''/tmp/expo-bundler-4242'']
   \<and> tempDir_of (stub_env\<lparr>pid := 4243\<rparr>) = ''/tmp/expo-bundler-4243''
   \<and> tempDir_of stub_env \<noteq> tempDir_of (stub_env\<lparr>pid := 4243\<rparr>)"
proof -
  have h: "pid stub_env \<noteq> pid (stub_env\<lparr>pid := 4243\<rparr>)"
    by (simp add: stub_env_def)
  have t: "tempDir_of (stub_env\<lparr>pid := 4243\<rparr>) = ''/tmp/expo-bundler-4243''"
    by (simp add: tempDir_of_def stub_defs path_join_def)
  have w: "workspaces empty_fs = []"
    by (simp add: workspaces_def events_of_def empty_fs_def)
  have j: "path_join (tmpdir stub_env) (''expo-bundler-'' @ string_of_nat (pid stub_env))
      = ''/tmp/expo-bundler-4242''"
    using stub_tempDir(1) by (simp add: tempDir_of_def)
  show ?thesis
    using h t w j
      workspace_per_process [of stub_env "''/proj''" "''abc''" "''BUNDLER''" True empty_fs
        "stub_env\<lparr>pid := 4243\<rparr>"]
    by simp
qed

text \<open>
  Claim C9 as it is worded has any two concurrent builds acquire different
  workspaces. Two builds of different requests in the same process acquire the
  same one. When the second runs to its end between the first one's \<open>ensureDir\<close>
  and its first write, the second removes the directory and the first fails on
  that write.
\<close>

theorem workspace_shared_in_process:
  "(''/proj'', ''abc'', True) \<noteq> (''/other'', ''xyz'', False)
   \<and> workspaces (snd (buildHermesBundleAsync stub_env ''/proj'' ''abc'' ''BUNDLER'' True empty_fs))
       = [''/tmp/expo-bundler-4242'']
   \<and> workspaces (snd (buildHermesBundleAsync stub_env ''/other'' ''xyz'' ''BUNDLER'' False empty_fs))
       = [''/tmp/expo-bundler-4242'']
   \<and> fst (buildHermesBundleAsync stub_env ''/other'' ''xyz'' ''BUNDLER'' False
            (snd (fs_ensureDir stub_env ''/tmp/expo-bundler-4242'' empty_fs)))
       = Inr \<lparr>hbc = [120, 121, 122], sourcemap = ''10>a.js:1;''\<rparr>
   \<and> fst (build_body stub_env ''/tmp/expo-bundler-4242'' ''/proj'' ''abc'' ''BUNDLER'' True
            (snd (buildHermesBundleAsync stub_env ''/other'' ''xyz'' ''BUNDLER'' False
               (snd (fs_ensureDir stub_env ''/tmp/expo-bundler-4242'' empty_fs)))))
       = Inl (SystemError (WriteFile ''/tmp/expo-bundler-4242/index.bundle''))"
proof -
  have "workspaces empty_fs = []" by (simp add: workspaces_def events_of_def empty_fs_def)
  then show ?thesis by (simp add: build_workspaces stub_tempDir interleaved_builds)
qed

end
